theory Spec2Isabelle
  imports Main
begin

section \<open>Baud rates\<close>

text \<open>
  The \<open>speed_t\<close> constants of \<open>termios.h\<close> that \<open>bytenuts.c\<close> names. They are pairwise
  distinct values of an unsigned integer type; the embedding keeps them as the
  constructors of an enumeration.
\<close>

datatype speed_t =
    B0 | B50 | B75 | B110 | B134 | B150 | B200 | B300 | B600 | B1200 | B1800
  | B2400 | B4800 | B9600 | B19200 | B38400 | B57600 | B115200 | B230400
  | B460800 | B500000 | B576000 | B921600 | B1000000 | B1152000 | B1500000
  | B2000000 | B2500000 | B3000000 | B3500000 | B4000000

text \<open>
  \<open>string_to_speed\<close>, lines 386 to 451: a chain of \<open>strcmp\<close> tests in the order of the
  source. The argument is a C string, so \<open>strcmp\<close> returning zero is equality of
  the character lists.
\<close>

definition string_to_speed :: "string \<Rightarrow> speed_t" where
  "string_to_speed speed =
    (if speed = ''50'' then B50
     else if speed = ''75'' then B75
     else if speed = ''110'' then B110
     else if speed = ''134'' then B134
     else if speed = ''150'' then B150
     else if speed = ''200'' then B200
     else if speed = ''300'' then B300
     else if speed = ''600'' then B600
     else if speed = ''1200'' then B1200
     else if speed = ''1800'' then B1800
     else if speed = ''2400'' then B2400
     else if speed = ''4800'' then B4800
     else if speed = ''9600'' then B9600
     else if speed = ''19200'' then B19200
     else if speed = ''38400'' then B38400
     else if speed = ''57600'' then B57600
     else if speed = ''115200'' then B1152000
     else if speed = ''230400'' then B230400
     else if speed = ''460800'' then B460800
     else if speed = ''500000'' then B500000
     else if speed = ''576000'' then B576000
     else if speed = ''921600'' then B921600
     else if speed = ''1000000'' then B1000000
     else if speed = ''1152000'' then B1152000
     else if speed = ''1500000'' then B1500000
     else if speed = ''2000000'' then B2000000
     else if speed = ''2500000'' then B2500000
     else if speed = ''3000000'' then B3000000
     else if speed = ''3500000'' then B3500000
     else if speed = ''4000000'' then B4000000
     else B0)"

text \<open>\<open>speed_to_string\<close>, lines 453 to 518: the reverse chain, on the constants.\<close>

definition speed_to_string :: "speed_t \<Rightarrow> string" where
  "speed_to_string speed =
    (if speed = B50 then ''B50''
     else if speed = B75 then ''B75''
     else if speed = B110 then ''B110''
     else if speed = B134 then ''B134''
     else if speed = B150 then ''B150''
     else if speed = B200 then ''B200''
     else if speed = B300 then ''B300''
     else if speed = B600 then ''B600''
     else if speed = B1200 then ''B1200''
     else if speed = B1800 then ''B1800''
     else if speed = B2400 then ''B2400''
     else if speed = B4800 then ''B4800''
     else if speed = B9600 then ''B9600''
     else if speed = B19200 then ''B19200''
     else if speed = B38400 then ''B38400''
     else if speed = B57600 then ''B57600''
     else if speed = B115200 then ''B1152000''
     else if speed = B230400 then ''B230400''
     else if speed = B460800 then ''B460800''
     else if speed = B500000 then ''B500000''
     else if speed = B576000 then ''B576000''
     else if speed = B921600 then ''B921600''
     else if speed = B1000000 then ''B1000000''
     else if speed = B1152000 then ''B1152000''
     else if speed = B1500000 then ''B1500000''
     else if speed = B2000000 then ''B2000000''
     else if speed = B2500000 then ''B2500000''
     else if speed = B3000000 then ''B3000000''
     else if speed = B3500000 then ''B3500000''
     else if speed = B4000000 then ''B4000000''
     else '''')"

text \<open>
  The decimal spellings that \<open>string_to_speed\<close> compares its argument with, in the
  order of the chain.
\<close>

definition standard_rates :: "string list" where
  "standard_rates =
    [''50'', ''75'', ''110'', ''134'', ''150'', ''200'', ''300'', ''600'', ''1200'',
     ''1800'', ''2400'', ''4800'', ''9600'', ''19200'', ''38400'', ''57600'',
     ''115200'', ''230400'', ''460800'', ''500000'', ''576000'', ''921600'',
     ''1000000'', ''1152000'', ''1500000'', ''2000000'', ''2500000'', ''3000000'',
     ''3500000'', ''4000000'']"

section \<open>Configuration, command line and config file\<close>

text \<open>
  The configuration fields that \<open>bytenuts.c\<close> reads and writes. The three flags are
  C integers, the escape character a byte, the paths \<open>char *\<close> pointers that may be
  \<open>NULL\<close>. The struct itself and \<open>CONFIG_DEFAULT\<close> are declared in \<open>bytenuts.h\<close>;
  \<open>CONFIG_DEFAULT\<close> is a parameter of \<open>parse_args\<close> below.
\<close>

record config_t =
  colors :: int
  echo :: int
  no_crlf :: int
  escape :: char
  baud :: speed_t
  config_path :: "string option"
  log_path :: "string option"
  serial_path :: "string option"

text \<open>
  The fields of the global \<open>bytenuts\<close> that \<open>bytenuts.c\<close> reads and writes as data: the
  configuration; the array \<open>config_overrides\<close>, indexed from 0, whose entries are only
  ever tested for being nonzero; the descriptor of the serial device; and the four
  status strings, pointers to heap blocks or \<open>NULL\<close>. The windows, the two mutexes and
  the condition variable are objects of ncurses and pthreads; they appear below as
  the calls made on them.
\<close>

type_synonym addr = nat

record bytenuts_t =
  config :: config_t
  config_overrides :: "nat \<Rightarrow> bool"
  serial_fd :: int
  bytenuts_status :: "addr option"
  ingest_status :: "addr option"
  cheerios_status :: "addr option"
  cmdpg_status :: "addr option"

datatype error =
    Bad_args       \<comment> \<open>\<open>parse_args\<close> returns \<open>-1\<close>\<close>
  | Null_pointer   \<comment> \<open>\<open>strlen\<close> of the \<open>NULL\<close> that \<open>getenv\<close> returns when \<open>HOME\<close> is unset\<close>

text \<open>
  One iteration of the loop of lines 282 to 340 at \<open>argv[i] = a\<close>, where \<open>as\<close> are the
  arguments \<open>argv[i + 1] .. argv[argc - 2]\<close> behind it. The result is the global after
  the iteration and the arguments that the following iterations see: the options
  \<open>-b\<close>, \<open>-l\<close> and \<open>-c\<close> advance \<open>i\<close> to their value and return \<open>-1\<close> when that index
  is \<open>argc - 1\<close>, that is when no option argument is left.
\<close>

definition parse_opt ::
  "bytenuts_t \<Rightarrow> string \<Rightarrow> string list \<Rightarrow> error + (bytenuts_t \<times> string list)" where
  "parse_opt b a as =
    (if a = ''-h'' then Inl Bad_args
     else if a = ''-b'' then
       (case as of
          [] \<Rightarrow> Inl Bad_args
        | v # rest \<Rightarrow> Inr (b\<lparr>config := (config b)\<lparr>baud := string_to_speed v\<rparr>\<rparr>, rest))
     else if a = ''-l'' then
       (case as of
          [] \<Rightarrow> Inl Bad_args
        | v # rest \<Rightarrow> Inr (b\<lparr>config := (config b)\<lparr>log_path := Some v\<rparr>\<rparr>, rest))
     else if a = ''-c'' then
       (case as of
          [] \<Rightarrow> Inl Bad_args
        | v # rest \<Rightarrow> Inr (b\<lparr>config := (config b)\<lparr>config_path := Some v\<rparr>\<rparr>, rest))
     else if length a = 10 \<and> take 9 a = ''--colors='' then
       Inr ((if a ! 9 = CHR ''1'' then b\<lparr>config := (config b)\<lparr>colors := 1\<rparr>\<rparr>
             else if a ! 9 = CHR ''0'' then b\<lparr>config := (config b)\<lparr>colors := 0\<rparr>\<rparr>
             else b)
            \<lparr>config_overrides := (config_overrides b)(0 := True)\<rparr>, as)
     else if length a = 8 \<and> take 7 a = ''--echo='' then
       Inr ((if a ! 7 = CHR ''1'' then b\<lparr>config := (config b)\<lparr>echo := 1\<rparr>\<rparr>
             else if a ! 7 = CHR ''0'' then b\<lparr>config := (config b)\<lparr>echo := 0\<rparr>\<rparr>
             else b)
            \<lparr>config_overrides := (config_overrides b)(1 := True)\<rparr>, as)
     else if length a = 11 \<and> take 10 a = ''--no_crlf='' then
       Inr ((if a ! 10 = CHR ''1'' then b\<lparr>config := (config b)\<lparr>no_crlf := 1\<rparr>\<rparr>
             else if a ! 10 = CHR ''0'' then b\<lparr>config := (config b)\<lparr>no_crlf := 0\<rparr>\<rparr>
             else b)
            \<lparr>config_overrides := (config_overrides b)(2 := True)\<rparr>, as)
     else if length a = 10 \<and> take 9 a = ''--escape='' then
       Inr (b\<lparr>config := (config b)\<lparr>escape := a ! 9\<rparr>,
              config_overrides := (config_overrides b)(3 := True)\<rparr>, as)
     else Inl Bad_args)"

lemma parse_opt_rest:
  "parse_opt b a as = Inr (b', rest) \<Longrightarrow> length rest \<le> length as"
  unfolding parse_opt_def
  by (auto split: if_splits list.splits)

text \<open>The loop of lines 282 to 340 over \<open>argv[1] .. argv[argc - 2]\<close>.\<close>

function parse_opts :: "bytenuts_t \<Rightarrow> string list \<Rightarrow> error + bytenuts_t" where
  "parse_opts b [] = Inr b"
| "parse_opts b (a # as) =
    (case parse_opt b a as of
       Inl e \<Rightarrow> Inl e
     | Inr (b', rest) \<Rightarrow> parse_opts b' rest)"
  by pat_completeness auto
termination
  by (relation "measure (\<lambda>(b, as). length as)") (auto dest: parse_opt_rest)

text \<open>
  The state at line 282, when the loop starts: the defaults, with \<open>config_path\<close>
  built from \<open>HOME\<close>.
\<close>

definition args_start :: "config_t \<Rightarrow> string \<Rightarrow> bytenuts_t \<Rightarrow> bytenuts_t" where
  "args_start CONFIG_DEFAULT home b =
     b\<lparr>config := CONFIG_DEFAULT\<lparr>config_path := Some (home @ ''/.config/bytenuts/config'')\<rparr>\<rparr>"

text \<open>
  \<open>parse_args\<close>, lines 264 to 345. \<open>argc\<close> is the length of \<open>argv\<close>; \<open>getenv_HOME\<close> is
  what \<open>getenv("HOME")\<close> returns. \<open>Inl Bad_args\<close> is the return value \<open>-1\<close>, \<open>Inr\<close> the
  return value \<open>0\<close> with the global as the function leaves it.
\<close>

definition parse_args ::
  "config_t \<Rightarrow> string option \<Rightarrow> string list \<Rightarrow> bytenuts_t \<Rightarrow> error + bytenuts_t" where
  "parse_args CONFIG_DEFAULT getenv_HOME argv b =
    (if length argv < 2 then Inl Bad_args
     else if length argv = 2 \<and> argv ! 1 = ''-h'' then Inl Bad_args
     else
       (case getenv_HOME of
          None \<Rightarrow> Inl Null_pointer
        | Some home \<Rightarrow>
            (case parse_opts (args_start CONFIG_DEFAULT home b) (butlast (tl argv)) of
               Inl e \<Rightarrow> Inl e
             | Inr b' \<Rightarrow> Inr (b'\<lparr>config := (config b')\<lparr>serial_path := Some (last argv)\<rparr>\<rparr>))))"

text \<open>
  \<open>fgets(line, n + 1, fd)\<close> on the unread rest of the file: it stores at most \<open>n\<close>
  characters and stops behind a newline. The result is the characters stored and
  the rest of the file.
\<close>

fun fgets :: "nat \<Rightarrow> string \<Rightarrow> string \<times> string" where
  "fgets 0 cs = ([], cs)"
| "fgets (Suc n) [] = ([], [])"
| "fgets (Suc n) (c # cs) =
     (if c = CHR 0x0A then ([c], cs)
      else (case fgets n cs of (l, r) \<Rightarrow> (c # l, r)))"

lemma fgets_rest_shorter:
  "0 < n \<Longrightarrow> cs \<noteq> [] \<Longrightarrow> length (snd (fgets n cs)) < length cs"
proof (induction n cs rule: fgets.induct)
  case (3 n c cs)
  show ?case
  proof (cases "c = CHR 0x0A")
    case True
    then show ?thesis by simp
  next
    case False
    have "length (snd (fgets n cs)) \<le> length cs"
    proof (cases "0 < n \<and> cs \<noteq> []")
      case True
      with 3 False show ?thesis by simp
    next
      case False
      then show ?thesis by (cases n; cases cs) auto
    qed
    with False show ?thesis by (simp add: split_beta)
  qed
qed simp_all

text \<open>
  The successive results of \<open>fgets(line, sizeof(line), fd)\<close> with \<open>char line[128]\<close>,
  until it returns \<open>NULL\<close> at the end of the file.
\<close>

function read_lines :: "string \<Rightarrow> string list" where
  "read_lines cs =
     (if cs = [] then [] else fst (fgets 127 cs) # read_lines (snd (fgets 127 cs)))"
  by pat_completeness auto
termination
  by (relation "measure length") (simp_all add: fgets_rest_shorter)

text \<open>
  \<open>line[k]\<close> after a \<open>memcmp\<close> that matched the first \<open>k\<close> characters: a character of
  the line, or the terminating zero byte when the line ends there.
\<close>

definition line_at :: "string \<Rightarrow> nat \<Rightarrow> char" where
  "line_at line k = (if k < length line then line ! k else CHR 0x00)"

text \<open>
  The body of the loop of lines 359 to 381 for one line. \<open>memcmp(line, key, n)\<close> is
  zero exactly when the first \<open>n\<close> characters of the line are the key: a shorter line
  differs from the key at its terminating zero byte at the latest.
\<close>

definition config_line :: "bytenuts_t \<Rightarrow> string \<Rightarrow> bytenuts_t" where
  "config_line b line =
    (if \<not> config_overrides b 0 \<and> take 7 line = ''colors='' then
       (if line_at line 7 = CHR ''0'' then b\<lparr>config := (config b)\<lparr>colors := 0\<rparr>\<rparr>
        else if line_at line 7 = CHR ''1'' then b\<lparr>config := (config b)\<lparr>colors := 1\<rparr>\<rparr>
        else b)
     else if \<not> config_overrides b 1 \<and> take 5 line = ''echo='' then
       (if line_at line 5 = CHR ''0'' then b\<lparr>config := (config b)\<lparr>echo := 0\<rparr>\<rparr>
        else if line_at line 5 = CHR ''1'' then b\<lparr>config := (config b)\<lparr>echo := 1\<rparr>\<rparr>
        else b)
     else if \<not> config_overrides b 2 \<and> take 8 line = ''no_crlf='' then
       (if line_at line 8 = CHR ''0'' then b\<lparr>config := (config b)\<lparr>no_crlf := 0\<rparr>\<rparr>
        else if line_at line 8 = CHR ''1'' then b\<lparr>config := (config b)\<lparr>no_crlf := 1\<rparr>\<rparr>
        else b)
     else if \<not> config_overrides b 3 \<and> take 7 line = ''escape='' then
       b\<lparr>config := (config b)\<lparr>escape := line_at line 7\<rparr>\<rparr>
     else b)"

text \<open>
  \<open>fopen(path, "r")\<close>: the file system is a function from paths to the contents of the
  files that can be opened. A \<open>NULL\<close> path opens nothing.
\<close>

definition fopen_r :: "(string \<Rightarrow> string option) \<Rightarrow> string option \<Rightarrow> string option" where
  "fopen_r fs path = (case path of None \<Rightarrow> None | Some p \<Rightarrow> fs p)"

text \<open>
  \<open>load_configs\<close>, lines 347 to 384. It returns \<open>0\<close> on every path; the result is the
  global as it leaves it.
\<close>

definition load_configs :: "(string \<Rightarrow> string option) \<Rightarrow> bytenuts_t \<Rightarrow> bytenuts_t" where
  "load_configs fs b =
    (case fopen_r fs (config_path (config b)) of
       None \<Rightarrow> b
     | Some content \<Rightarrow> foldl config_line b (read_lines content))"

text \<open>
  The global after \<open>memset(&bytenuts, 0, sizeof(bytenuts_t))\<close> at line 40: every
  integer zero (\<open>B0\<close> is the zero of \<open>speed_t\<close>), every pointer \<open>NULL\<close>, no override set.
\<close>

definition bytenuts_zero :: bytenuts_t where
  "bytenuts_zero =
     \<lparr>config = \<lparr>colors = 0, echo = 0, no_crlf = 0, escape = CHR 0x00, baud = B0,
                 config_path = None, log_path = None, serial_path = None\<rparr>,
      config_overrides = (\<lambda>i. False), serial_fd = 0,
      bytenuts_status = None, ingest_status = None, cheerios_status = None,
      cmdpg_status = None\<rparr>"

subsection \<open>Vocabulary for the statements about the config file\<close>

text \<open>The lines that the loop of \<open>load_configs\<close> sees: none when the file cannot be opened.\<close>

definition config_file_lines :: "(string \<Rightarrow> string option) \<Rightarrow> bytenuts_t \<Rightarrow> string list" where
  "config_file_lines fs b =
     (case fopen_r fs (config_path (config b)) of
        None \<Rightarrow> []
      | Some content \<Rightarrow> read_lines content)"

text \<open>
  A line that gives the 0/1 key \<open>key\<close> of length \<open>k\<close> a value: it starts with the key,
  and the character behind the key is \<open>0\<close> or \<open>1\<close>. \<open>flag_of\<close> is the value it gives.
\<close>

definition flag_line :: "string \<Rightarrow> nat \<Rightarrow> string \<Rightarrow> bool" where
  "flag_line key k l \<longleftrightarrow>
     take k l = key \<and> (line_at l k = CHR ''0'' \<or> line_at l k = CHR ''1'')"

definition flag_of :: "nat \<Rightarrow> string \<Rightarrow> int" where
  "flag_of k l = (if line_at l k = CHR ''1'' then 1 else 0)"

text \<open>A line that starts with the key \<open>key\<close> of length \<open>k\<close>.\<close>

definition key_line :: "string \<Rightarrow> nat \<Rightarrow> string \<Rightarrow> bool" where
  "key_line key k l \<longleftrightarrow> take k l = key"



subsection \<open>Concrete inputs\<close>

text \<open>
  A value for \<open>CONFIG_DEFAULT\<close> (colors on, echo off, CRLF on, escape ctrl+b, 115200
  baud), a file system with one config file at the default path under the home
  directory \<open>/home/user\<close>, and the global as \<open>parse_args\<close> leaves it for the command line
  \<open>bytenuts /dev/ttyUSB0\<close>.
\<close>

definition example_default :: config_t where
  "example_default =
     \<lparr>colors = 1, echo = 0, no_crlf = 0, escape = CHR 0x02, baud = B115200,
      config_path = None, log_path = None, serial_path = None\<rparr>"

definition example_fs :: "string \<Rightarrow> string \<Rightarrow> string option" where
  "example_fs content p =
     (if p = ''/home/user/.config/bytenuts/config'' then Some content else None)"

definition example_loaded :: bytenuts_t where
  "example_loaded =
     bytenuts_zero
       \<lparr>config := example_default\<lparr>config_path := Some ''/home/user/.config/bytenuts/config'',
                                   serial_path := Some ''/dev/ttyUSB0''\<rparr>\<rparr>"



section \<open>The status line\<close>

text \<open>
  The owner identifiers \<open>STATUS_BYTENUTS\<close>, \<open>STATUS_INGEST\<close>, \<open>STATUS_CHEERIOS\<close> and
  \<open>STATUS_CMDPAGE\<close> are integer constants of \<open>bytenuts.h\<close>; they are parameters here. As
  labels of one \<open>switch\<close> they are pairwise distinct.
\<close>

record status_ids =
  STATUS_BYTENUTS :: int
  STATUS_INGEST :: int
  STATUS_CHEERIOS :: int
  STATUS_CMDPAGE :: int

definition ids_distinct :: "status_ids \<Rightarrow> bool" where
  "ids_distinct ids \<longleftrightarrow>
     distinct [STATUS_BYTENUTS ids, STATUS_INGEST ids, STATUS_CHEERIOS ids, STATUS_CMDPAGE ids]"

text \<open>
  The calls that \<open>bytenuts.c\<close> makes on the terminal, the engines and the serial
  device after startup, in the order in which they are made.
\<close>

datatype window = Status_win | Out_win | In_win

datatype call =
    Curs_set int
  | Wmove window int int
  | Waddch window char
  | Wprintw window string
  | Wrefresh window
  | Refresh
  | Delwin window
  | Endwin
  | Ingest_stop
  | Cheerios_stop
  | Close int

text \<open>
  The state that \<open>bytenuts_set_status\<close> and \<open>bytenuts_kill\<close> work on: the global, the
  heap of \<open>calloc\<close> and \<open>strdup\<close>, where block \<open>a\<close> is \<open>heap ! a\<close> and a freed block is
  \<open>None\<close>, the calls made so far, and the two values the terminal is asked for: the
  cursor of the input window (\<open>getyx\<close>) and the width of the status window
  (\<open>getmaxx\<close>).
\<close>

record system =
  global :: bytenuts_t
  heap :: "string option list"
  calls :: "call list"
  in_yx :: "int \<times> int"
  status_maxx :: int

datatype fault =
    Invalid_free     \<comment> \<open>\<open>free\<close> of a block that is not allocated\<close>
  | Use_after_free   \<comment> \<open>a \<open>%s\<close> argument that points to no allocated block\<close>

text \<open>
  Lines 174 to 181, and \<open>strdup\<close>: a new block that holds the text; it is distinct from
  every block allocated before. The allocation is taken to succeed, as the source
  takes it.
\<close>

definition alloc_text :: "string \<Rightarrow> system \<Rightarrow> addr \<times> system" where
  "alloc_text text s = (length (heap s), s\<lparr>heap := heap s @ [Some text]\<rparr>)"

definition allocated :: "system \<Rightarrow> addr \<Rightarrow> bool" where
  "allocated s a \<longleftrightarrow> a < length (heap s) \<and> heap s ! a \<noteq> None"

definition free_block :: "addr \<Rightarrow> system \<Rightarrow> fault + system" where
  "free_block a s =
     (if allocated s a then Inr (s\<lparr>heap := (heap s)[a := None]\<rparr>) else Inl Invalid_free)"

text \<open>\<open>if (p) free(p);\<close>\<close>

definition free_if_set :: "addr option \<Rightarrow> system \<Rightarrow> fault + system" where
  "free_if_set p s = (case p of None \<Rightarrow> Inr s | Some a \<Rightarrow> free_block a s)"

text \<open>
  What \<open>%s\<close> prints for a \<open>char *\<close>: the text of the block. For \<open>NULL\<close> the C library of
  the platform (glibc) prints \<open>(null)\<close>.
\<close>

definition c_string :: "system \<Rightarrow> addr option \<Rightarrow> fault + string" where
  "c_string s p =
     (case p of
        None \<Rightarrow> Inr ''(null)''
      | Some a \<Rightarrow>
          (if a < length (heap s) then
             (case heap s ! a of None \<Rightarrow> Inl Use_after_free | Some text \<Rightarrow> Inr text)
           else Inl Use_after_free))"

text \<open>The format \<open>"|--%s--|--%s--|--%s--|--%s--|"\<close> of line 225.\<close>

definition status_format :: "string \<Rightarrow> string \<Rightarrow> string \<Rightarrow> string \<Rightarrow> string" where
  "status_format a b c d =
     ''|--'' @ a @ ''--|--'' @ b @ ''--|--'' @ c @ ''--|--'' @ d @ ''--|''"

text \<open>The text that \<open>wprintw\<close> at lines 224 to 228 prints.\<close>

definition status_text :: "system \<Rightarrow> fault + string" where
  "status_text s =
     (case c_string s (bytenuts_status (global s)) of Inl f \<Rightarrow> Inl f | Inr a \<Rightarrow>
      (case c_string s (ingest_status (global s)) of Inl f \<Rightarrow> Inl f | Inr b \<Rightarrow>
       (case c_string s (cheerios_status (global s)) of Inl f \<Rightarrow> Inl f | Inr c \<Rightarrow>
        (case c_string s (cmdpg_status (global s)) of Inl f \<Rightarrow> Inl f | Inr d \<Rightarrow>
           Inr (status_format a b c d)))))"

text \<open>
  Lines 212 to 235, between taking and releasing \<open>term_lock\<close>: the cursor of the input
  window is read, the status window is filled with \<open>width - 1\<close> dashes and a bar, the
  four strings are printed over them from column 0, and the cursor is put back.
\<close>

definition redraw_status :: "system \<Rightarrow> fault + system" where
  "redraw_status s =
     (case status_text s of
        Inl f \<Rightarrow> Inl f
      | Inr text \<Rightarrow>
          Inr (s\<lparr>calls := calls s @
                 [Curs_set 0, Wmove Status_win 0 0] @
                 replicate (nat (status_maxx s - 1)) (Waddch Status_win (CHR ''-'')) @
                 [Waddch Status_win (CHR ''|''), Wmove Status_win 0 0,
                  Wprintw Status_win text,
                  Wmove In_win (fst (in_yx s)) (snd (in_yx s)), Curs_set 1,
                  Wrefresh Status_win, Refresh]\<rparr>))"

text \<open>
  \<open>bytenuts_set_status\<close>, lines 166 to 238. \<open>text\<close> is what \<open>vsnprintf\<close> makes of the
  format and its arguments. The result is the return value and the state; the two
  mutexes are free before and after the call.
\<close>

definition bytenuts_set_status ::
  "status_ids \<Rightarrow> int \<Rightarrow> string \<Rightarrow> system \<Rightarrow> fault + (int \<times> system)" where
  "bytenuts_set_status ids user text s =
    (case alloc_text text s of (new_status, s1) \<Rightarrow>
      if user = STATUS_BYTENUTS ids then
        (case free_if_set (bytenuts_status (global s1)) s1 of Inl f \<Rightarrow> Inl f | Inr s2 \<Rightarrow>
         (case redraw_status (s2\<lparr>global := (global s2)\<lparr>bytenuts_status := Some new_status\<rparr>\<rparr>) of
            Inl f \<Rightarrow> Inl f | Inr s3 \<Rightarrow> Inr (0, s3)))
      else if user = STATUS_INGEST ids then
        (case free_if_set (ingest_status (global s1)) s1 of Inl f \<Rightarrow> Inl f | Inr s2 \<Rightarrow>
         (case redraw_status (s2\<lparr>global := (global s2)\<lparr>ingest_status := Some new_status\<rparr>\<rparr>) of
            Inl f \<Rightarrow> Inl f | Inr s3 \<Rightarrow> Inr (0, s3)))
      else if user = STATUS_CHEERIOS ids then
        (case free_if_set (cheerios_status (global s1)) s1 of Inl f \<Rightarrow> Inl f | Inr s2 \<Rightarrow>
         (case redraw_status (s2\<lparr>global := (global s2)\<lparr>cheerios_status := Some new_status\<rparr>\<rparr>) of
            Inl f \<Rightarrow> Inl f | Inr s3 \<Rightarrow> Inr (0, s3)))
      else if user = STATUS_CMDPAGE ids then
        (case free_if_set (cmdpg_status (global s1)) s1 of Inl f \<Rightarrow> Inl f | Inr s2 \<Rightarrow>
         (case redraw_status (s2\<lparr>global := (global s2)\<lparr>cmdpg_status := Some new_status\<rparr>\<rparr>) of
            Inl f \<Rightarrow> Inl f | Inr s3 \<Rightarrow> Inr (0, s3)))
      else
        (case free_block new_status s1 of Inl f \<Rightarrow> Inl f | Inr s2 \<Rightarrow> Inr (0, s2)))"

subsection \<open>The status update, thread by thread\<close>

text \<open>
  \<open>bytenuts_set_status\<close> is called by several threads (the two engines, the command
  page, the main thread), and it works under two mutexes in turn: the \<open>switch\<close> of
  lines 184 to 209 under \<open>lock\<close>, the redraw of lines 214 to 233 under \<open>term_lock\<close>. What
  follows are the pieces of the function between which another thread can run.

  The \<open>switch\<close>, lines 184 to 210, for the block \<open>new_status\<close> of lines 174 to 181. The
  flag of the result says whether \<open>user\<close> is one of the four owners, that is, whether
  the redraw follows (\<open>break\<close>) or the function returns (line 208).
\<close>

definition status_switch ::
  "status_ids \<Rightarrow> int \<Rightarrow> addr \<Rightarrow> system \<Rightarrow> fault + (bool \<times> system)" where
  "status_switch ids user new_status s =
    (if user = STATUS_BYTENUTS ids then
       (case free_if_set (bytenuts_status (global s)) s of Inl f \<Rightarrow> Inl f | Inr s2 \<Rightarrow>
          Inr (True, s2\<lparr>global := (global s2)\<lparr>bytenuts_status := Some new_status\<rparr>\<rparr>))
     else if user = STATUS_INGEST ids then
       (case free_if_set (ingest_status (global s)) s of Inl f \<Rightarrow> Inl f | Inr s2 \<Rightarrow>
          Inr (True, s2\<lparr>global := (global s2)\<lparr>ingest_status := Some new_status\<rparr>\<rparr>))
     else if user = STATUS_CHEERIOS ids then
       (case free_if_set (cheerios_status (global s)) s of Inl f \<Rightarrow> Inl f | Inr s2 \<Rightarrow>
          Inr (True, s2\<lparr>global := (global s2)\<lparr>cheerios_status := Some new_status\<rparr>\<rparr>))
     else if user = STATUS_CMDPAGE ids then
       (case free_if_set (cmdpg_status (global s)) s of Inl f \<Rightarrow> Inl f | Inr s2 \<Rightarrow>
          Inr (True, s2\<lparr>global := (global s2)\<lparr>cmdpg_status := Some new_status\<rparr>\<rparr>))
     else
       (case free_block new_status s of Inl f \<Rightarrow> Inl f | Inr s2 \<Rightarrow> Inr (False, s2)))"

text \<open>
  The four \<open>char *\<close> arguments of the call of \<open>wprintw\<close> at lines 224 to 228: the values
  of the four status pointers at the moment the call is made. \<open>wprintw\<close> then reads the
  strings they point to, in the heap as it is while \<open>wprintw\<close> runs.
\<close>

type_synonym status_args = "addr option \<times> addr option \<times> addr option \<times> addr option"

definition status_args :: "bytenuts_t \<Rightarrow> status_args" where
  "status_args b = (bytenuts_status b, ingest_status b, cheerios_status b, cmdpg_status b)"

definition format_args :: "system \<Rightarrow> status_args \<Rightarrow> fault + string" where
  "format_args s args =
     (case args of (p0, p1, p2, p3) \<Rightarrow>
      (case c_string s p0 of Inl f \<Rightarrow> Inl f | Inr a \<Rightarrow>
       (case c_string s p1 of Inl f \<Rightarrow> Inl f | Inr b \<Rightarrow>
        (case c_string s p2 of Inl f \<Rightarrow> Inl f | Inr c \<Rightarrow>
         (case c_string s p3 of Inl f \<Rightarrow> Inl f | Inr d \<Rightarrow>
            Inr (status_format a b c d))))))"

text \<open>
  Lines 215 to 223: the status window is filled with dashes and a bar. Then lines 224
  to 233: \<open>wprintw\<close> prints the strings of its arguments, and the cursor is put back to
  where \<open>getyx\<close> found it at line 214.
\<close>

definition redraw_clear :: "system \<Rightarrow> system" where
  "redraw_clear s =
     s\<lparr>calls := calls s @
         [Curs_set 0, Wmove Status_win 0 0] @
         replicate (nat (status_maxx s - 1)) (Waddch Status_win (CHR ''-'')) @
         [Waddch Status_win (CHR ''|''), Wmove Status_win 0 0]\<rparr>"

definition redraw_print :: "int \<times> int \<Rightarrow> status_args \<Rightarrow> system \<Rightarrow> fault + system" where
  "redraw_print yx args s =
     (case format_args s args of
        Inl f \<Rightarrow> Inl f
      | Inr text \<Rightarrow>
          Inr (s\<lparr>calls := calls s @
                 [Wprintw Status_win text,
                  Wmove In_win (fst yx) (snd yx), Curs_set 1,
                  Wrefresh Status_win, Refresh]\<rparr>))"

text \<open>Where a thread is in \<open>bytenuts_set_status\<close>, with the locals it holds there.\<close>

datatype status_pc =
    Outside                  \<comment> \<open>not in the function\<close>
  | At_lock int addr         \<comment> \<open>line 183, before \<open>pthread_mutex_lock(&bytenuts.lock)\<close>, with
                                 \<open>user\<close> and \<open>new_status\<close>\<close>
  | In_switch int addr       \<comment> \<open>line 184, holding \<open>lock\<close>\<close>
  | At_term_lock             \<comment> \<open>line 212, before \<open>pthread_mutex_lock(&bytenuts.term_lock)\<close>\<close>
  | In_redraw                \<comment> \<open>line 214, holding \<open>term_lock\<close>\<close>
  | In_wprintw "int \<times> int" status_args
                             \<comment> \<open>in \<open>wprintw\<close>, called at line 224 with these arguments, holding
                                 \<open>term_lock\<close>; the pair is \<open>cy\<close>, \<open>cx\<close>\<close>

text \<open>
  The state that the threads share, the owner of each mutex if it is locked, and the
  place of each thread.
\<close>

record status_threads =
  shared :: system
  lock_owner :: "nat option"
  term_owner :: "nat option"
  place :: "nat \<Rightarrow> status_pc"

definition threads_init :: "system \<Rightarrow> status_threads" where
  "threads_init s = \<lparr>shared = s, lock_owner = None, term_owner = None, place = (\<lambda>t. Outside)\<rparr>"

text \<open>
  What the scheduler lets a thread do: a thread outside the function calls it, with
  \<open>user\<close> and the formatted text; a thread inside goes on to its next place.
\<close>

datatype status_action = Set_status int string | Resume

text \<open>
  One step of thread \<open>t\<close>. The call allocates and fills \<open>new_status\<close> (lines 174 to 181).
  \<open>pthread_mutex_lock\<close> takes a free mutex and leaves the thread where it is when the
  mutex is held. Under \<open>lock\<close> the thread runs the \<open>switch\<close> and unlocks (line 210, or
  line 207 for an identifier that is no owner). Under \<open>term_lock\<close> it reads the cursor,
  clears the status window and calls \<open>wprintw\<close> with the four pointers as they are
  then; in a second step \<open>wprintw\<close> reads the strings and prints, the cursor is put
  back and line 235 unlocks.
\<close>

definition status_step ::
  "status_ids \<Rightarrow> status_threads \<Rightarrow> nat \<times> status_action \<Rightarrow> fault + status_threads" where
  "status_step ids st ta =
    (case ta of (t, act) \<Rightarrow>
      (case place st t of
         Outside \<Rightarrow>
           (case act of
              Set_status user text \<Rightarrow>
                (case alloc_text text (shared st) of (new_status, s1) \<Rightarrow>
                   Inr (st\<lparr>shared := s1, place := (place st)(t := At_lock user new_status)\<rparr>))
            | Resume \<Rightarrow> Inr st)
       | At_lock user new_status \<Rightarrow>
           (if lock_owner st = None
            then Inr (st\<lparr>lock_owner := Some t,
                         place := (place st)(t := In_switch user new_status)\<rparr>)
            else Inr st)
       | In_switch user new_status \<Rightarrow>
           (case status_switch ids user new_status (shared st) of
              Inl f \<Rightarrow> Inl f
            | Inr (known, s2) \<Rightarrow>
                Inr (st\<lparr>shared := s2, lock_owner := None,
                        place := (place st)(t := if known then At_term_lock else Outside)\<rparr>))
       | At_term_lock \<Rightarrow>
           (if term_owner st = None
            then Inr (st\<lparr>term_owner := Some t, place := (place st)(t := In_redraw)\<rparr>)
            else Inr st)
       | In_redraw \<Rightarrow>
           Inr (st\<lparr>shared := redraw_clear (shared st),
                   place := (place st)(t := In_wprintw (in_yx (shared st))
                                              (status_args (global (shared st))))\<rparr>)
       | In_wprintw yx args \<Rightarrow>
           (case redraw_print yx args (shared st) of
              Inl f \<Rightarrow> Inl f
            | Inr s2 \<Rightarrow>
                Inr (st\<lparr>shared := s2, term_owner := None,
                        place := (place st)(t := Outside)\<rparr>))))"

text \<open>A schedule: which thread steps next, and what a thread outside the function
  calls it with. The run ends at the first fault.\<close>

definition status_exec ::
  "status_ids \<Rightarrow> (nat \<times> status_action) list \<Rightarrow> status_threads \<Rightarrow> fault + status_threads" where
  "status_exec ids sched st =
     foldl (\<lambda>r ta. case r of Inl f \<Rightarrow> Inl f | Inr s \<Rightarrow> status_step ids s ta) (Inr st) sched"

text \<open>The schedule in which thread \<open>t\<close> makes one call and runs it to its end with no
  other thread in between.\<close>

definition call_alone :: "nat \<Rightarrow> int \<Rightarrow> string \<Rightarrow> (nat \<times> status_action) list" where
  "call_alone t user text = (t, Set_status user text) # replicate 5 (t, Resume)"

text \<open>
  Lines 83 and 84 of \<open>bytenuts_run\<close>: the strings of the two engines start as empty
  strings; the other two pointers are still \<open>NULL\<close> from line 40.
\<close>

definition init_statuses :: "system \<Rightarrow> system" where
  "init_statuses s =
     (case alloc_text [] s of (p, s1) \<Rightarrow>
      (case alloc_text [] (s1\<lparr>global := (global s1)\<lparr>ingest_status := Some p\<rparr>\<rparr>) of (q, s2) \<Rightarrow>
         s2\<lparr>global := (global s2)\<lparr>cheerios_status := Some q\<rparr>\<rparr>))"

subsection \<open>Vocabulary for the statements about the status line\<close>

text \<open>The status pointers of the global, and what makes them sound to print and to free:
  each one that is set points to an allocated block, and no two point to the same block.\<close>

definition slots :: "bytenuts_t \<Rightarrow> addr option list" where
  "slots b = [bytenuts_status b, ingest_status b, cheerios_status b, cmdpg_status b]"

definition slots_ok :: "system \<Rightarrow> bool" where
  "slots_ok s \<longleftrightarrow>
     (\<forall>p\<in>set (slots (global s)). \<forall>a\<in>set_option p. allocated s a) \<and>
     distinct (filter (\<lambda>p. p \<noteq> None) (slots (global s)))"

text \<open>
  The text of the last \<open>wprintw\<close> on the status window among the calls made: what the
  status window shows from column 0 on.
\<close>

fun status_printed :: "call \<Rightarrow> string option" where
  "status_printed (Wprintw w t) = (if w = Status_win then Some t else None)"
| "status_printed c = None"

definition last_status_print :: "call list \<Rightarrow> string option" where
  "last_status_print cs =
     foldl (\<lambda>shown c. case status_printed c of None \<Rightarrow> shown | Some t \<Rightarrow> Some t) None cs"

text \<open>The texts that \<open>%s\<close> prints for the four status pointers, in the order of the format.\<close>

definition texts :: "system \<Rightarrow> (fault + string) list" where
  "texts s = map (c_string s) (slots (global s))"

text \<open>The status window shows the four strings as they are now.\<close>

definition synced :: "system \<Rightarrow> bool" where
  "synced s \<longleftrightarrow>
     (case status_text s of
        Inl f \<Rightarrow> False
      | Inr t \<Rightarrow> last_status_print (calls s) = Some t)"

text \<open>
  The heap after \<open>if (p) free(p);\<close> and the allocation of a block for \<open>str\<close>, in the order
  of the blocks.
\<close>

definition replaced :: "addr option \<Rightarrow> string \<Rightarrow> string option list \<Rightarrow> string option list" where
  "replaced p str h = (case p of None \<Rightarrow> h | Some a \<Rightarrow> h[a := None]) @ [Some str]"

text \<open>Concrete inputs: the identifiers 0 to 3, and a terminal of 80 columns at startup.\<close>

definition example_ids :: status_ids where
  "example_ids =
     \<lparr>STATUS_BYTENUTS = 0, STATUS_INGEST = 1, STATUS_CHEERIOS = 2, STATUS_CMDPAGE = 3\<rparr>"

definition example_system :: system where
  "example_system =
     init_statuses
       \<lparr>global = example_loaded, heap = [], calls = [], in_yx = (0, 0), status_maxx = 80\<rparr>"

text \<open>
  Two updates at the same time, with the identifiers 0 to 3: thread 1 (the ingest
  engine) sets the status of \<open>STATUS_INGEST\<close> to \<open>rx\<close> and gets as far as the call of
  \<open>wprintw\<close>; thread 2 (the cheerios engine) then sets the status of \<open>STATUS_CHEERIOS\<close>
  to \<open>tx\<close> and gets through the \<open>switch\<close>; then \<open>wprintw\<close> of thread 1 goes on.
\<close>

definition racing_updates :: "(nat \<times> status_action) list" where
  "racing_updates =
     [(1, Set_status 1 ''rx''), (1, Resume), (1, Resume), (1, Resume), (1, Resume),
      (2, Set_status 2 ''tx''), (2, Resume), (2, Resume),
      (1, Resume)]"

section \<open>Shutdown and the stop signal\<close>

text \<open>
  \<open>bytenuts_kill\<close>, lines 127 to 139. The two engines are in \<open>ingest.c\<close> and
  \<open>cheerios.c\<close>; \<open>ingest_stop\<close> and \<open>cheerios_stop\<close> appear here as the calls made to them.
\<close>

definition bytenuts_kill :: "system \<Rightarrow> system" where
  "bytenuts_kill s =
     s\<lparr>calls := calls s @
          [Ingest_stop, Cheerios_stop,
           Delwin Status_win, Delwin In_win, Delwin Out_win, Endwin,
           Close (serial_fd (global s))]\<rparr>"

text \<open>The calls of one shutdown sequence, on the serial descriptor \<open>fd\<close>.\<close>

definition kill_calls :: "int \<Rightarrow> call list" where
  "kill_calls fd = [Ingest_stop, Cheerios_stop,
           Delwin Status_win, Delwin In_win, Delwin Out_win, Endwin, Close fd]"

text \<open>
  Where the main context is in lines 109 to 115 of \<open>bytenuts_run\<close>, after it has
  started the two engines: before \<open>pthread_cond_wait\<close>, blocked in it, unblocked
  by a signal but not yet running, and behind \<open>bytenuts_kill\<close>.
\<close>

datatype main_pc = Starting | Waiting | Woken | Returned

record process =
  sys :: system
  main :: main_pc

text \<open>
  \<open>bytenuts_stop\<close>, lines 118 to 125, called by an engine or a handler:
  \<open>pthread_cond_signal\<close> unblocks a thread that is blocked on the condition
  variable and has no effect when none is; the condition variable keeps no record
  of the signal. The mutex \<open>lock\<close>, held around the signal and taken by the main
  context before it waits, makes the call one step.
\<close>

definition bytenuts_stop :: "process \<Rightarrow> int \<times> process" where
  "bytenuts_stop p = (0, if main p = Waiting then p\<lparr>main := Woken\<rparr> else p)"

text \<open>
  The main context runs as far as it can: from the start into \<open>pthread_cond_wait\<close>
  (lines 109 and 110), where it stays until it is signalled (a wake-up without a
  signal is left out); once unblocked, through \<open>bytenuts_kill\<close> to the return
  (lines 111 to 115).
\<close>

definition main_runs :: "process \<Rightarrow> process" where
  "main_runs p =
     (case main p of
        Starting \<Rightarrow> p\<lparr>main := Waiting\<rparr>
      | Waiting \<Rightarrow> p
      | Woken \<Rightarrow> p\<lparr>sys := bytenuts_kill (sys p), main := Returned\<rparr>
      | Returned \<Rightarrow> p)"

text \<open>An interleaving of stop requests with the main context, one event after the other.\<close>

datatype event = Stop_request | Main_runs

fun step :: "process \<Rightarrow> event \<Rightarrow> process" where
  "step p Stop_request = snd (bytenuts_stop p)"
| "step p Main_runs = main_runs p"

definition run :: "event list \<Rightarrow> process \<Rightarrow> process" where
  "run evs p = foldl step p evs"

text \<open>The process when the engines have been started, line 101.\<close>

definition started :: "system \<Rightarrow> process" where
  "started s = \<lparr>sys = s, main = Starting\<rparr>"

subsection \<open>Vocabulary for the statements about shutdown\<close>

text \<open>The number of shutdown sequences among the calls made: each one ends the
  terminal session once, with \<open>endwin\<close>.\<close>

definition shutdowns :: "call list \<Rightarrow> nat" where
  "shutdowns cs = count_list cs Endwin"

text \<open>A call that destroys a window of the screen surface or closes a descriptor.\<close>

fun destroys :: "call \<Rightarrow> bool" where
  "destroys (Delwin w) = True"
| "destroys (Close fd) = True"
| "destroys c = False"

text \<open>Every destroying call among \<open>cs\<close> comes after a call of \<open>ingest_stop\<close> and a call
  of \<open>cheerios_stop\<close>.\<close>

definition engines_stopped_first :: "call list \<Rightarrow> bool" where
  "engines_stopped_first cs \<longleftrightarrow>
     (\<forall>i<length cs. destroys (cs ! i) \<longrightarrow>
        Ingest_stop \<in> set (take i cs) \<and> Cheerios_stop \<in> set (take i cs))"

text \<open>The \<open>close\<close> calls among \<open>cs\<close>.\<close>

fun is_close :: "call \<Rightarrow> bool" where
  "is_close (Close fd) = True"
| "is_close c = False"

section \<open>The two mutexes\<close>

text \<open>
  \<open>bytenuts_run\<close> initialises two mutexes, \<open>bytenuts.lock\<close> (line 88) and
  \<open>bytenuts.term_lock\<close> (line 92). This section follows the threads that call
  \<open>bytenuts_set_status\<close> and \<open>bytenuts_update_screen_size\<close> from one mutex operation to
  the next. A thread is at one of these places:
\<close>

datatype thread_pc =
    Idle                  \<comment> \<open>in neither function\<close>
  | Status_lock bool      \<comment> \<open>line 183, before \<open>pthread_mutex_lock(&bytenuts.lock)\<close>; the flag
                              says whether \<open>user\<close> is one of the four owners\<close>
  | Status_store bool     \<comment> \<open>lines 184 to 210, in the \<open>switch\<close>, holding \<open>lock\<close>\<close>
  | Status_term_lock      \<comment> \<open>line 212, before \<open>pthread_mutex_lock(&bytenuts.term_lock)\<close>\<close>
  | Status_redraw         \<comment> \<open>lines 214 to 235, drawing the status line, holding \<open>term_lock\<close>\<close>
  | Resize_term_lock      \<comment> \<open>line 243, before \<open>pthread_mutex_lock(&bytenuts.term_lock)\<close>\<close>
  | Resize_windows        \<comment> \<open>lines 245 to 257, resizing the windows, holding \<open>term_lock\<close>\<close>

text \<open>The owner of each mutex, if it is locked, and the place of each thread.\<close>

record locks =
  lock :: "nat option"
  term_lock :: "nat option"
  pc :: "nat \<Rightarrow> thread_pc"

definition locks_init :: locks where
  "locks_init = \<lparr>lock = None, term_lock = None, pc = (\<lambda>t. Idle)\<rparr>"

text \<open>What the scheduler lets a thread do: an idle thread calls one of the two
  functions, a thread inside a function goes on to its next mutex operation.\<close>

datatype action = Call_set_status bool | Call_update_screen_size | Proceed

text \<open>
  One step of thread \<open>t\<close>. \<open>pthread_mutex_lock\<close> takes a free mutex and leaves the thread
  where it is when the mutex is held. With an owner, the \<open>switch\<close> stores the new
  string and line 210 unlocks; with another identifier, lines 206 to 208 free the
  text, unlock and return. Lines 235 and 257 unlock \<open>term_lock\<close>; what follows line 257
  is \<open>cheerios_insert\<close>, in \<open>cheerios.c\<close>.
\<close>

definition thread_step :: "locks \<Rightarrow> nat \<times> action \<Rightarrow> locks" where
  "thread_step s ta =
    (case ta of (t, a) \<Rightarrow>
      (case pc s t of
         Idle \<Rightarrow>
           (case a of
              Call_set_status known \<Rightarrow> s\<lparr>pc := (pc s)(t := Status_lock known)\<rparr>
            | Call_update_screen_size \<Rightarrow> s\<lparr>pc := (pc s)(t := Resize_term_lock)\<rparr>
            | Proceed \<Rightarrow> s)
       | Status_lock known \<Rightarrow>
           (if lock s = None
            then s\<lparr>lock := Some t, pc := (pc s)(t := Status_store known)\<rparr>
            else s)
       | Status_store known \<Rightarrow>
           (if known
            then s\<lparr>lock := None, pc := (pc s)(t := Status_term_lock)\<rparr>
            else s\<lparr>lock := None, pc := (pc s)(t := Idle)\<rparr>)
       | Status_term_lock \<Rightarrow>
           (if term_lock s = None
            then s\<lparr>term_lock := Some t, pc := (pc s)(t := Status_redraw)\<rparr>
            else s)
       | Status_redraw \<Rightarrow> s\<lparr>term_lock := None, pc := (pc s)(t := Idle)\<rparr>
       | Resize_term_lock \<Rightarrow>
           (if term_lock s = None
            then s\<lparr>term_lock := Some t, pc := (pc s)(t := Resize_windows)\<rparr>
            else s)
       | Resize_windows \<Rightarrow> s\<lparr>term_lock := None, pc := (pc s)(t := Idle)\<rparr>))"

text \<open>A schedule: which thread steps next, and what an idle thread calls.\<close>

definition exec :: "(nat \<times> action) list \<Rightarrow> locks \<Rightarrow> locks" where
  "exec sched s = foldl thread_step s sched"

subsection \<open>Vocabulary for the statements about the mutexes\<close>

text \<open>Thread \<open>t\<close> is changing the screen surface: drawing the status line or resizing.\<close>

definition on_screen :: "locks \<Rightarrow> nat \<Rightarrow> bool" where
  "on_screen s t \<longleftrightarrow> pc s t = Status_redraw \<or> pc s t = Resize_windows"

text \<open>Thread \<open>t\<close> is in the \<open>switch\<close> that replaces a status string.\<close>

definition storing :: "locks \<Rightarrow> nat \<Rightarrow> bool" where
  "storing s t \<longleftrightarrow> pc s t = Status_store True \<or> pc s t = Status_store False"

text \<open>Each mutex is held by exactly the thread that is in the section it guards.\<close>

definition locks_inv :: "locks \<Rightarrow> bool" where
  "locks_inv s \<longleftrightarrow> (\<forall>t. (term_lock s = Some t \<longleftrightarrow> on_screen s t) \<and> (lock s = Some t \<longleftrightarrow> storing s t))"

section \<open>Properties of the baud-rate tables\<close>

text \<open>
  Claim C5. Both tables send the 115200 rate to the 1,152,000 constant: the string
  \<open>115200\<close> is converted to \<open>B1152000\<close>, and the constant \<open>B115200\<close> is printed as
  the text \<open>B1152000\<close>.
\<close>

theorem baud_115200_mapped_to_1152000:
  "string_to_speed ''115200'' = B1152000 \<and> speed_to_string B115200 = ''B1152000''"
  by (simp add: string_to_speed_def speed_to_string_def)

text \<open>
  Claim C8. A string that is not one of the decimal spellings of the chain is
  converted to the unset rate \<open>B0\<close>; the function has no failing branch.
\<close>

theorem string_to_speed_unrecognized:
  "speed \<notin> set standard_rates \<Longrightarrow> string_to_speed speed = B0"
  by (simp add: standard_rates_def string_to_speed_def)

theorem string_to_speed_unrecognized_witness:
  "''12345'' \<notin> set standard_rates \<and> string_to_speed ''12345'' = B0"
  using string_to_speed_unrecognized [of "''12345''"]
  by (simp add: standard_rates_def)

section \<open>The option loop and the config loop, step by step\<close>

subsection \<open>One line of the config file\<close>

lemma key_prefixes:
  "take 7 l = ''colors='' \<Longrightarrow> take 5 l \<noteq> ''echo=''"
  "take 7 l = ''colors='' \<Longrightarrow> take 8 l \<noteq> ''no_crlf=''"
  "take 7 l = ''colors='' \<Longrightarrow> take 7 l \<noteq> ''escape=''"
  "take 5 l = ''echo='' \<Longrightarrow> take 8 l \<noteq> ''no_crlf=''"
  "take 5 l = ''echo='' \<Longrightarrow> take 7 l \<noteq> ''escape=''"
  "take 8 l = ''no_crlf='' \<Longrightarrow> take 7 l \<noteq> ''escape=''"
proof -
  have t5: "take 5 l = take 5 (take 7 l)" and t5': "take 5 l = take 5 (take 8 l)" 
    and t7: "take 7 l = take 7 (take 8 l)" by simp_all
  show "take 7 l = ''colors='' \<Longrightarrow> take 5 l \<noteq> ''echo=''" by (simp add: t5)
  show "take 7 l = ''colors='' \<Longrightarrow> take 8 l \<noteq> ''no_crlf=''" 
    by (rule notI) (simp add: t7)
  show "take 7 l = ''colors='' \<Longrightarrow> take 7 l \<noteq> ''escape=''" by simp
  show "take 5 l = ''echo='' \<Longrightarrow> take 8 l \<noteq> ''no_crlf=''" 
    by (rule notI) (simp add: t5')
  show "take 5 l = ''echo='' \<Longrightarrow> take 7 l \<noteq> ''escape=''" 
    by (rule notI) (simp add: t5)
  show "take 8 l = ''no_crlf='' \<Longrightarrow> take 7 l \<noteq> ''escape=''"
    by (rule notI) (simp add: t7)
qed

lemma config_line_overrides: "config_overrides (config_line b l) = config_overrides b"
  by (simp add: config_line_def)

lemma config_line_colors:
  "colors (config (config_line b l)) =
     (if \<not> config_overrides b 0 \<and> flag_line ''colors='' 7 l
      then flag_of 7 l else colors (config b))"
  by (simp add: config_line_def flag_of_def flag_line_def)

lemma config_line_echo:
  "echo (config (config_line b l)) =
     (if \<not> config_overrides b 1 \<and> flag_line ''echo='' 5 l
      then flag_of 5 l else echo (config b))"
  using key_prefixes(1) [of l]
  by (simp add: config_line_def flag_of_def flag_line_def)

lemma config_line_no_crlf:
  "no_crlf (config (config_line b l)) =
     (if \<not> config_overrides b 2 \<and> flag_line ''no_crlf='' 8 l
      then flag_of 8 l else no_crlf (config b))"
  using key_prefixes(2,4) [of l]
  by (simp add: config_line_def flag_of_def flag_line_def)

lemma config_line_escape:
  "escape (config (config_line b l)) =
     (if \<not> config_overrides b 3 \<and> key_line ''escape='' 7 l then line_at l 7
      else escape (config b))"
  using key_prefixes(3,5,6) [of l]
  by (simp add: config_line_def key_line_def)


lemma foldl_config_line_overrides:
  "config_overrides (foldl config_line b ls) = config_overrides b"
  by (induction ls arbitrary: b) (simp_all add: config_line_overrides)


lemma foldl_last_wins:
  assumes step: "\<And>b l. ov (f b l) = ov b \<and> g (f b l) = (if \<not> ov b \<and> P l then v l else g b)"
  shows "g (foldl f b ls) =
           (if ov b \<or> filter P ls = [] then g b else v (last (filter P ls)))"
proof (induction ls rule: rev_induct)
  case Nil
  show ?case by simp
next
  case (snoc l ls)
  have ov: "ov (foldl f b ls) = ov b"
    by (induction ls rule: rev_induct) (simp_all add: step)
  show ?case
    by (simp add: step ov snoc)
qed

lemma load_colors:
  "colors (config (foldl config_line b ls)) =
     (if config_overrides b 0 \<or> filter (flag_line ''colors='' 7) ls = [] then colors (config b)
      else flag_of 7 (last (filter (flag_line ''colors='' 7) ls)))"
  by (rule foldl_last_wins [where ov = "\<lambda>b. config_overrides b 0" and g = "\<lambda>b. colors (config b)"])
     (simp add: config_line_overrides config_line_colors)

lemma load_echo:
  "echo (config (foldl config_line b ls)) =
     (if config_overrides b 1 \<or> filter (flag_line ''echo='' 5) ls = [] then echo (config b)
      else flag_of 5 (last (filter (flag_line ''echo='' 5) ls)))"
  by (rule foldl_last_wins [where ov = "\<lambda>b. config_overrides b 1" and g = "\<lambda>b. echo (config b)"])
     (simp add: config_line_overrides config_line_echo)

lemma load_no_crlf:
  "no_crlf (config (foldl config_line b ls)) =
     (if config_overrides b 2 \<or> filter (flag_line ''no_crlf='' 8) ls = [] then no_crlf (config b)
      else flag_of 8 (last (filter (flag_line ''no_crlf='' 8) ls)))"
  by (rule foldl_last_wins [where ov = "\<lambda>b. config_overrides b 2" and g = "\<lambda>b. no_crlf (config b)"])
     (simp add: config_line_overrides config_line_no_crlf)

lemma load_escape:
  "escape (config (foldl config_line b ls)) =
     (if config_overrides b 3 \<or> filter (key_line ''escape='' 7) ls = [] then escape (config b)
      else line_at (last (filter (key_line ''escape='' 7) ls)) 7)"
  by (rule foldl_last_wins [where ov = "\<lambda>b. config_overrides b 3" and g = "\<lambda>b. escape (config b)"
        and v = "\<lambda>l. line_at l 7"])
     (simp add: config_line_overrides config_line_escape)

subsection \<open>The whole file\<close>

lemma load_configs_foldl: "load_configs fs b = foldl config_line b (config_file_lines fs b)"
  by (simp add: load_configs_def config_file_lines_def split: option.splits)

subsection \<open>The option loop\<close>

lemma parse_opt_mono:
  "parse_opt b a as = Inr (b', rest) \<Longrightarrow> config_overrides b i \<Longrightarrow> config_overrides b' i"
  unfolding parse_opt_def
  by (auto split: if_splits list.splits)


lemma parse_opts_mono:
  "parse_opts b xs = Inr b' \<Longrightarrow> config_overrides b i \<Longrightarrow> config_overrides b' i"
proof (induction b xs rule: parse_opts.induct)
  case (1 b)
  then show ?case by simp
next
  case (2 b a as)
  then show ?case
    by (auto split: sum.splits dest: parse_opt_mono)
qed





lemma example_loaded_parsed:
  "parse_args example_default (Some ''/home/user'') [''bytenuts'', ''/dev/ttyUSB0''] bytenuts_zero =
     Inr example_loaded"
  by (simp add: parse_args_def args_start_def example_loaded_def bytenuts_zero_def)

subsection \<open>The last option of a kind decides\<close>























section \<open>Properties of the configuration\<close>





text \<open>
  Claim C4, as stated, fails: with the two lines \<open>echo=0\<close> and \<open>echo=1\<close> in the file,
  both match, the first one gives 0, and \<open>echo\<close> is 1 after \<open>load_configs\<close>.
\<close>

theorem first_matching_line_counterexample:
  "filter (flag_line ''echo='' 5) (config_file_lines (example_fs ''echo=0\<newline>echo=1\<newline>'') example_loaded)
     = [''echo=0\<newline>'', ''echo=1\<newline>''] \<and>
   flag_of 5 ''echo=0\<newline>'' = 0 \<and>
   echo (config (load_configs (example_fs ''echo=0\<newline>echo=1\<newline>'') example_loaded)) = 1"
  by (simp add: load_configs_def config_file_lines_def fopen_r_def example_fs_def example_loaded_def bytenuts_zero_def
      example_default_def config_line_def line_at_def flag_line_def flag_of_def eval_nat_numeral)


text \<open>
  Claim C4, amended. The loop has no \<open>break\<close>: every matching line assigns. For each
  key whose override is not set, when the file has one or several matching lines,
  the value in effect after \<open>load_configs\<close> is the one of the last matching line.
\<close>

theorem last_matching_line_wins:
  "(\<not> config_overrides b 0 \<and> filter (flag_line ''colors='' 7) (config_file_lines fs b) \<noteq> [] \<longrightarrow>
      colors (config (load_configs fs b)) =
        flag_of 7 (last (filter (flag_line ''colors='' 7) (config_file_lines fs b)))) \<and>
   (\<not> config_overrides b 1 \<and> filter (flag_line ''echo='' 5) (config_file_lines fs b) \<noteq> [] \<longrightarrow>
      echo (config (load_configs fs b)) =
        flag_of 5 (last (filter (flag_line ''echo='' 5) (config_file_lines fs b)))) \<and>
   (\<not> config_overrides b 2 \<and> filter (flag_line ''no_crlf='' 8) (config_file_lines fs b) \<noteq> [] \<longrightarrow>
      no_crlf (config (load_configs fs b)) =
        flag_of 8 (last (filter (flag_line ''no_crlf='' 8) (config_file_lines fs b)))) \<and>
   (\<not> config_overrides b 3 \<and> filter (key_line ''escape='' 7) (config_file_lines fs b) \<noteq> [] \<longrightarrow>
      escape (config (load_configs fs b)) =
        line_at (last (filter (key_line ''escape='' 7) (config_file_lines fs b))) 7)"
  by (simp add: load_configs_foldl load_colors load_echo load_no_crlf load_escape)


theorem last_matching_line_wins_witness:
  "echo (config (load_configs (example_fs ''echo=1\<newline>echo=0\<newline>'') example_loaded)) = 0 \<and>
   escape (config (load_configs (example_fs ''escape=a\<newline>color\<newline>escape=b\<newline>'') example_loaded)) = CHR ''b''"
  using last_matching_line_wins [of example_loaded "example_fs ''echo=1\<newline>echo=0\<newline>''"]
    last_matching_line_wins [of example_loaded "example_fs ''escape=a\<newline>color\<newline>escape=b\<newline>''"]
  by (simp add: config_file_lines_def fopen_r_def example_fs_def example_loaded_def bytenuts_zero_def
      example_default_def line_at_def flag_line_def key_line_def flag_of_def eval_nat_numeral)


text \<open>
  Claim C10. For \<open>--colors=\<close>, \<open>--echo=\<close> and \<open>--no_crlf=\<close> with one character that is
  neither \<open>0\<close> nor \<open>1\<close>, the iteration does not fail and changes nothing but the
  override: the loop goes on from the same configuration with the override of the
  key set. When the command line is accepted, the override is still set at the end,
  and \<open>load_configs\<close> leaves the field as \<open>parse_args\<close> left it, whatever the file holds.
\<close>

theorem invalid_flag_value_sets_override:
  assumes "c \<noteq> CHR ''0''" and "c \<noteq> CHR ''1''"
  shows
    "parse_opts b ((''--colors='' @ [c]) # as) =
        parse_opts (b\<lparr>config_overrides := (config_overrides b)(0 := True)\<rparr>) as \<and>
     parse_opts b ((''--echo='' @ [c]) # as) =
        parse_opts (b\<lparr>config_overrides := (config_overrides b)(1 := True)\<rparr>) as \<and>
     parse_opts b ((''--no_crlf='' @ [c]) # as) =
        parse_opts (b\<lparr>config_overrides := (config_overrides b)(2 := True)\<rparr>) as \<and>
     (\<forall>b' fs. parse_opts b ((''--colors='' @ [c]) # as) = Inr b' \<longrightarrow>
        config_overrides b' 0 \<and> colors (config (load_configs fs b')) = colors (config b')) \<and>
     (\<forall>b' fs. parse_opts b ((''--echo='' @ [c]) # as) = Inr b' \<longrightarrow>
        config_overrides b' 1 \<and> echo (config (load_configs fs b')) = echo (config b')) \<and>
     (\<forall>b' fs. parse_opts b ((''--no_crlf='' @ [c]) # as) = Inr b' \<longrightarrow>
        config_overrides b' 2 \<and> no_crlf (config (load_configs fs b')) = no_crlf (config b'))"
proof -
  have s0: "parse_opts b ((''--colors='' @ [c]) # as) =
        parse_opts (b\<lparr>config_overrides := (config_overrides b)(0 := True)\<rparr>) as"
    using assms by (simp add: parse_opt_def)
  have s1: "parse_opts b ((''--echo='' @ [c]) # as) =
        parse_opts (b\<lparr>config_overrides := (config_overrides b)(1 := True)\<rparr>) as"
    using assms by (simp add: parse_opt_def)
  have s2: "parse_opts b ((''--no_crlf='' @ [c]) # as) =
        parse_opts (b\<lparr>config_overrides := (config_overrides b)(2 := True)\<rparr>) as"
    using assms by (simp add: parse_opt_def)
  have l0: "config_overrides b' 0 \<and> colors (config (load_configs fs b')) = colors (config b')"
    if "parse_opts b ((''--colors='' @ [c]) # as) = Inr b'" for b' fs
  proof -
    from that s0 have "config_overrides b' 0"
      using parse_opts_mono [of "b\<lparr>config_overrides := (config_overrides b)(0 := True)\<rparr>" as b' 0]
      by simp
    then show ?thesis by (simp add: load_configs_foldl load_colors)
  qed
  have l1: "config_overrides b' 1 \<and> echo (config (load_configs fs b')) = echo (config b')"
    if "parse_opts b ((''--echo='' @ [c]) # as) = Inr b'" for b' fs
  proof -
    from that s1 have "config_overrides b' 1"
      using parse_opts_mono [of "b\<lparr>config_overrides := (config_overrides b)(1 := True)\<rparr>" as b' 1]
      by simp
    then show ?thesis by (simp add: load_configs_foldl load_echo)
  qed
  have l2: "config_overrides b' 2 \<and> no_crlf (config (load_configs fs b')) = no_crlf (config b')"
    if "parse_opts b ((''--no_crlf='' @ [c]) # as) = Inr b'" for b' fs
  proof -
    from that s2 have "config_overrides b' 2"
      using parse_opts_mono [of "b\<lparr>config_overrides := (config_overrides b)(2 := True)\<rparr>" as b' 2]
      by simp
    then show ?thesis by (simp add: load_configs_foldl load_no_crlf)
  qed
  from s0 s1 s2 l0 l1 l2 show ?thesis by blast
qed


theorem invalid_flag_value_sets_override_witness:
  "CHR ''x'' \<noteq> CHR ''0'' \<and> CHR ''x'' \<noteq> CHR ''1'' \<and>
   parse_opts example_loaded [''--echo=x''] =
     Inr (example_loaded\<lparr>config_overrides := (\<lambda>i. False)(1 := True)\<rparr>) \<and>
   echo (config (load_configs (example_fs ''echo=1\<newline>'')
     (example_loaded\<lparr>config_overrides := (\<lambda>i. False)(1 := True)\<rparr>))) = 0"
proof -
  have p: "parse_opts example_loaded [''--echo=x''] =
     Inr (example_loaded\<lparr>config_overrides := (\<lambda>i. False)(1 := True)\<rparr>)"
    by (simp add: parse_opt_def example_loaded_def bytenuts_zero_def)
  from invalid_flag_value_sets_override [of "CHR ''x''" example_loaded "[]"] p
  have "echo (config (load_configs (example_fs ''echo=1\<newline>'')
     (example_loaded\<lparr>config_overrides := (\<lambda>i. False)(1 := True)\<rparr>))) =
     echo (config (example_loaded\<lparr>config_overrides := (\<lambda>i. False)(1 := True)\<rparr>))"
    by simp
  with p show ?thesis by (simp add: example_loaded_def bytenuts_zero_def example_default_def)
qed

section \<open>One status update, step by step\<close>

lemma unknown_owner_result:
  assumes "user \<noteq> STATUS_BYTENUTS ids" "user \<noteq> STATUS_INGEST ids"
    "user \<noteq> STATUS_CHEERIOS ids" "user \<noteq> STATUS_CMDPAGE ids"
  shows "bytenuts_set_status ids user str s = Inr (0, s\<lparr>heap := heap s @ [None]\<rparr>)"
  using assms
  by (simp add: bytenuts_set_status_def alloc_text_def free_block_def allocated_def)

lemma last_status_print_redraw:
  "last_status_print (cs @ Curs_set 0 # Wmove Status_win 0 0 #
                 replicate n (Waddch Status_win (CHR ''-'')) @
                 [Waddch Status_win (CHR ''|''), Wmove Status_win 0 0,
                  Wprintw Status_win text,
                  Wmove In_win y x, Curs_set 1,
                  Wrefresh Status_win, Refresh]) = Some text"
proof -
  have "foldl (\<lambda>shown c. case status_printed c of None \<Rightarrow> shown | Some t \<Rightarrow> Some t) acc
          (replicate n (Waddch Status_win (CHR ''-''))) = acc" for acc
    by (induction n) simp_all
  then show ?thesis
    by (simp add: last_status_print_def)
qed

lemma redraw_status_ok:
  assumes "status_text s = Inr t"
  shows "redraw_status s = Inr (s\<lparr>calls := calls s @
                 [Curs_set 0, Wmove Status_win 0 0] @
                 replicate (nat (status_maxx s - 1)) (Waddch Status_win (CHR ''-'')) @
                 [Waddch Status_win (CHR ''|''), Wmove Status_win 0 0,
                  Wprintw Status_win t,
                  Wmove In_win (fst (in_yx s)) (snd (in_yx s)), Curs_set 1,
                  Wrefresh Status_win, Refresh]\<rparr>)"
  using assms unfolding redraw_status_def by simp

lemma length_replaced [simp]: "length (replaced p str h) = Suc (length h)"
  by (simp add: replaced_def split: option.splits)

lemma free_if_set_alloc:
  assumes "\<forall>a\<in>set_option (p). allocated s a"
  shows "free_if_set p (s\<lparr>heap := heap s @ [Some str]\<rparr>) =
           Inr (s\<lparr>heap := replaced p str (heap s)\<rparr>)"
  using assms
  by (auto simp: free_if_set_def free_block_def allocated_def replaced_def nth_append
      list_update_append split: option.splits)

lemma c_string_replaced_old:
  assumes "c_string s q = Inr t" and "q = None \<or> q \<noteq> p"
  shows "c_string (s\<lparr>heap := replaced p str (heap s), global := g\<rparr>) q = Inr t"
  using assms
  by (auto simp: c_string_def replaced_def nth_append nth_list_update
      split: option.splits if_splits)

lemma c_string_replaced_new:
  "c_string (s\<lparr>heap := replaced p str (heap s), global := g\<rparr>) (Some (length (heap s))) = Inr str"
  by (auto simp: c_string_def replaced_def nth_append split: option.splits)

lemma allocated_replaced_old:
  assumes "allocated s a" and "Some a \<noteq> p"
  shows "allocated (s\<lparr>heap := replaced p str (heap s), global := g\<rparr>) a"
  using assms
  by (auto simp: allocated_def replaced_def nth_append nth_list_update split: option.splits)

lemma allocated_replaced_new:
  "allocated (s\<lparr>heap := replaced p str (heap s), global := g\<rparr>) (length (heap s))"
  by (auto simp: allocated_def replaced_def nth_append split: option.splits)

lemma allocated_less: "allocated s a \<Longrightarrow> a < length (heap s)"
  by (simp add: allocated_def)


lemma slots_okD:
  assumes "slots_ok s"
  shows "\<forall>a\<in>set_option (bytenuts_status (global s)). allocated s a"
    and "\<forall>a\<in>set_option (ingest_status (global s)). allocated s a"
    and "\<forall>a\<in>set_option (cheerios_status (global s)). allocated s a"
    and "\<forall>a\<in>set_option (cmdpg_status (global s)). allocated s a"
  using assms by (auto simp: slots_ok_def slots_def split: if_splits)

lemma slots_ok_apart:
  assumes "slots_ok s"
  shows "ingest_status (global s) = None \<or> ingest_status (global s) \<noteq> bytenuts_status (global s)"
    and "cheerios_status (global s) = None \<or> cheerios_status (global s) \<noteq> bytenuts_status (global s)"
    and "cmdpg_status (global s) = None \<or> cmdpg_status (global s) \<noteq> bytenuts_status (global s)"
    and "bytenuts_status (global s) = None \<or> bytenuts_status (global s) \<noteq> ingest_status (global s)"
    and "cheerios_status (global s) = None \<or> cheerios_status (global s) \<noteq> ingest_status (global s)"
    and "cmdpg_status (global s) = None \<or> cmdpg_status (global s) \<noteq> ingest_status (global s)"
    and "bytenuts_status (global s) = None \<or> bytenuts_status (global s) \<noteq> cheerios_status (global s)"
    and "ingest_status (global s) = None \<or> ingest_status (global s) \<noteq> cheerios_status (global s)"
    and "cmdpg_status (global s) = None \<or> cmdpg_status (global s) \<noteq> cheerios_status (global s)"
    and "bytenuts_status (global s) = None \<or> bytenuts_status (global s) \<noteq> cmdpg_status (global s)"
    and "ingest_status (global s) = None \<or> ingest_status (global s) \<noteq> cmdpg_status (global s)"
    and "cheerios_status (global s) = None \<or> cheerios_status (global s) \<noteq> cmdpg_status (global s)"
  using assms by (auto simp: slots_ok_def slots_def split: if_splits)

lemma slots_okI:
  assumes "slots (global s) = [p0, p1, p2, p3]"
    and "\<forall>a\<in>set_option (p0). allocated s a"
    and "\<forall>a\<in>set_option (p1). allocated s a"
    and "\<forall>a\<in>set_option (p2). allocated s a"
    and "\<forall>a\<in>set_option (p3). allocated s a"
    and "p0 = None \<or> p0 \<noteq> p1" "p0 = None \<or> p0 \<noteq> p2" "p0 = None \<or> p0 \<noteq> p3"
    "p1 = None \<or> p1 \<noteq> p2" "p1 = None \<or> p1 \<noteq> p3" "p2 = None \<or> p2 \<noteq> p3"
  shows "slots_ok s"
  using assms by (auto simp: slots_ok_def split: option.splits)

lemma allocated_replaced_keep:
  assumes "\<forall>a\<in>set_option (q). allocated s a" and "q = None \<or> q \<noteq> p"
  shows "\<forall>a\<in>set_option (q). allocated (s\<lparr>heap := replaced p str (heap s), global := g\<rparr>) a"
  using assms by (cases q) (auto intro: allocated_replaced_old)

lemma fresh_apart:
  assumes "\<forall>a\<in>set_option (q). allocated s a"
  shows "q = None \<or> q \<noteq> Some (length (heap s))"
    and "Some (length (heap s)) = None \<or> Some (length (heap s)) \<noteq> q"
  using assms by (cases q; auto dest: allocated_less)+

lemma allocated_calls [simp]: "allocated (s\<lparr>calls := cs\<rparr>) = allocated s"
  by (simp add: allocated_def fun_eq_iff)

lemma c_string_calls [simp]: "c_string (s\<lparr>calls := cs\<rparr>) = c_string s"
  by (rule ext) (simp add: c_string_def split: option.splits)

lemma status_text_texts:
  "texts s = [Inr a, Inr b, Inr c, Inr d] \<Longrightarrow> status_text s = Inr (status_format a b c d)"
  by (simp add: texts_def slots_def status_text_def)

lemma redraw_after_replace:
  assumes tx: "texts s1 = [Inr a, Inr b, Inr c, Inr d]" and ok: "slots_ok s1"
  shows "\<exists>s'. (case redraw_status s1 of Inl f \<Rightarrow> Inl f | Inr s3 \<Rightarrow> Inr (0::int, s3)) = Inr (0, s') \<and>
           slots_ok s' \<and> texts s' = [Inr a, Inr b, Inr c, Inr d] \<and> synced s'"
proof -
  note st = status_text_texts [OF tx]
  let ?s' = "s1\<lparr>calls := calls s1 @
                 [Curs_set 0, Wmove Status_win 0 0] @
                 replicate (nat (status_maxx s1 - 1)) (Waddch Status_win (CHR ''-'')) @
                 [Waddch Status_win (CHR ''|''), Wmove Status_win 0 0,
                  Wprintw Status_win (status_format a b c d),
                  Wmove In_win (fst (in_yx s1)) (snd (in_yx s1)), Curs_set 1,
                  Wrefresh Status_win, Refresh]\<rparr>"
  have ok': "slots_ok ?s'" using ok by (simp add: slots_ok_def)
  have tx': "texts ?s' = [Inr a, Inr b, Inr c, Inr d]"
    using tx by (simp add: texts_def)
  have "synced ?s'"
    unfolding synced_def status_text_texts [OF tx']
    by (simp add: last_status_print_redraw)
  with ok' tx' show ?thesis
    unfolding redraw_status_ok [OF st] by simp
qed

lemma known_owner_0:
  assumes ok: "slots_ok s" and dist: "ids_distinct ids" and user: "user = STATUS_BYTENUTS ids"
    and tx: "texts s = [Inr a, Inr b, Inr c, Inr d]"
  shows "\<exists>s'. bytenuts_set_status ids user str s = Inr (0, s') \<and> slots_ok s' \<and>
           texts s' = [Inr str, Inr b, Inr c, Inr d] \<and> synced s'"
proof -
  let ?p = "bytenuts_status (global s)"
  let ?g = "(global s)\<lparr>bytenuts_status := Some (length (heap s))\<rparr>"
  let ?s = "s\<lparr>heap := replaced ?p str (heap s), global := ?g\<rparr>"
  note d = slots_okD [OF ok] and ap = slots_ok_apart [OF ok]
  from tx have cs:
    "c_string s (ingest_status (global s)) = Inr b"
    "c_string s (cheerios_status (global s)) = Inr c"
    "c_string s (cmdpg_status (global s)) = Inr d"
    by (simp_all add: texts_def slots_def)
  have t: "texts ?s = [Inr str, Inr b, Inr c, Inr d]"
    using c_string_replaced_new [where s = s and p = "?p" and str = str and g = "?g"]
      c_string_replaced_old [OF cs(1) ap(1), where str = str and g = "?g"]
      c_string_replaced_old [OF cs(2) ap(2), where str = str and g = "?g"]
      c_string_replaced_old [OF cs(3) ap(3), where str = str and g = "?g"]
    by (simp add: texts_def slots_def)
  have ok': "slots_ok ?s"
  proof (rule slots_okI)
    show "slots (global ?s) = [Some (length (heap s)), ingest_status (global s), cheerios_status (global s), cmdpg_status (global s)]"
      by (simp add: slots_def)
    show "\<forall>a\<in>set_option (Some (length (heap s))). allocated ?s a"
      using allocated_replaced_new [where s = s and p = "?p" and str = str and g = "?g"] by simp
  qed (rule allocated_replaced_keep [OF d(2) ap(1)]
        allocated_replaced_keep [OF d(3) ap(2)]
        allocated_replaced_keep [OF d(4) ap(3)]
        fresh_apart(2) [OF d(2)]
        fresh_apart(2) [OF d(3)]
        fresh_apart(2) [OF d(4)]
        ap(8)
        ap(11)
        ap(12))+
  have run: "bytenuts_set_status ids user str s =
      (case redraw_status ?s of Inl f \<Rightarrow> Inl f | Inr s3 \<Rightarrow> Inr (0, s3))"
    using free_if_set_alloc [OF d(1), where str = str] dist
    by (auto simp add: bytenuts_set_status_def alloc_text_def user ids_distinct_def)
  show ?thesis unfolding run by (rule redraw_after_replace [OF t ok'])
qed

lemma known_owner_1:
  assumes ok: "slots_ok s" and dist: "ids_distinct ids" and user: "user = STATUS_INGEST ids"
    and tx: "texts s = [Inr a, Inr b, Inr c, Inr d]"
  shows "\<exists>s'. bytenuts_set_status ids user str s = Inr (0, s') \<and> slots_ok s' \<and>
           texts s' = [Inr a, Inr str, Inr c, Inr d] \<and> synced s'"
proof -
  let ?p = "ingest_status (global s)"
  let ?g = "(global s)\<lparr>ingest_status := Some (length (heap s))\<rparr>"
  let ?s = "s\<lparr>heap := replaced ?p str (heap s), global := ?g\<rparr>"
  note d = slots_okD [OF ok] and ap = slots_ok_apart [OF ok]
  from tx have cs:
    "c_string s (bytenuts_status (global s)) = Inr a"
    "c_string s (cheerios_status (global s)) = Inr c"
    "c_string s (cmdpg_status (global s)) = Inr d"
    by (simp_all add: texts_def slots_def)
  have t: "texts ?s = [Inr a, Inr str, Inr c, Inr d]"
    using c_string_replaced_new [where s = s and p = "?p" and str = str and g = "?g"]
      c_string_replaced_old [OF cs(1) ap(4), where str = str and g = "?g"]
      c_string_replaced_old [OF cs(2) ap(5), where str = str and g = "?g"]
      c_string_replaced_old [OF cs(3) ap(6), where str = str and g = "?g"]
    by (simp add: texts_def slots_def)
  have ok': "slots_ok ?s"
  proof (rule slots_okI)
    show "slots (global ?s) = [bytenuts_status (global s), Some (length (heap s)), cheerios_status (global s), cmdpg_status (global s)]"
      by (simp add: slots_def)
    show "\<forall>a\<in>set_option (Some (length (heap s))). allocated ?s a"
      using allocated_replaced_new [where s = s and p = "?p" and str = str and g = "?g"] by simp
  qed (rule allocated_replaced_keep [OF d(1) ap(4)]
        allocated_replaced_keep [OF d(3) ap(5)]
        allocated_replaced_keep [OF d(4) ap(6)]
        fresh_apart(1) [OF d(1)]
        ap(7)
        ap(10)
        fresh_apart(2) [OF d(3)]
        fresh_apart(2) [OF d(4)]
        ap(12))+
  have run: "bytenuts_set_status ids user str s =
      (case redraw_status ?s of Inl f \<Rightarrow> Inl f | Inr s3 \<Rightarrow> Inr (0, s3))"
    using free_if_set_alloc [OF d(2), where str = str] dist
    by (auto simp add: bytenuts_set_status_def alloc_text_def user ids_distinct_def)
  show ?thesis unfolding run by (rule redraw_after_replace [OF t ok'])
qed

lemma known_owner_2:
  assumes ok: "slots_ok s" and dist: "ids_distinct ids" and user: "user = STATUS_CHEERIOS ids"
    and tx: "texts s = [Inr a, Inr b, Inr c, Inr d]"
  shows "\<exists>s'. bytenuts_set_status ids user str s = Inr (0, s') \<and> slots_ok s' \<and>
           texts s' = [Inr a, Inr b, Inr str, Inr d] \<and> synced s'"
proof -
  let ?p = "cheerios_status (global s)"
  let ?g = "(global s)\<lparr>cheerios_status := Some (length (heap s))\<rparr>"
  let ?s = "s\<lparr>heap := replaced ?p str (heap s), global := ?g\<rparr>"
  note d = slots_okD [OF ok] and ap = slots_ok_apart [OF ok]
  from tx have cs:
    "c_string s (bytenuts_status (global s)) = Inr a"
    "c_string s (ingest_status (global s)) = Inr b"
    "c_string s (cmdpg_status (global s)) = Inr d"
    by (simp_all add: texts_def slots_def)
  have t: "texts ?s = [Inr a, Inr b, Inr str, Inr d]"
    using c_string_replaced_new [where s = s and p = "?p" and str = str and g = "?g"]
      c_string_replaced_old [OF cs(1) ap(7), where str = str and g = "?g"]
      c_string_replaced_old [OF cs(2) ap(8), where str = str and g = "?g"]
      c_string_replaced_old [OF cs(3) ap(9), where str = str and g = "?g"]
    by (simp add: texts_def slots_def)
  have ok': "slots_ok ?s"
  proof (rule slots_okI)
    show "slots (global ?s) = [bytenuts_status (global s), ingest_status (global s), Some (length (heap s)), cmdpg_status (global s)]"
      by (simp add: slots_def)
    show "\<forall>a\<in>set_option (Some (length (heap s))). allocated ?s a"
      using allocated_replaced_new [where s = s and p = "?p" and str = str and g = "?g"] by simp
  qed (rule allocated_replaced_keep [OF d(1) ap(7)]
        allocated_replaced_keep [OF d(2) ap(8)]
        allocated_replaced_keep [OF d(4) ap(9)]
        ap(4)
        fresh_apart(1) [OF d(1)]
        ap(10)
        fresh_apart(1) [OF d(2)]
        ap(11)
        fresh_apart(2) [OF d(4)])+
  have run: "bytenuts_set_status ids user str s =
      (case redraw_status ?s of Inl f \<Rightarrow> Inl f | Inr s3 \<Rightarrow> Inr (0, s3))"
    using free_if_set_alloc [OF d(3), where str = str] dist
    by (auto simp add: bytenuts_set_status_def alloc_text_def user ids_distinct_def)
  show ?thesis unfolding run by (rule redraw_after_replace [OF t ok'])
qed

lemma known_owner_3:
  assumes ok: "slots_ok s" and dist: "ids_distinct ids" and user: "user = STATUS_CMDPAGE ids"
    and tx: "texts s = [Inr a, Inr b, Inr c, Inr d]"
  shows "\<exists>s'. bytenuts_set_status ids user str s = Inr (0, s') \<and> slots_ok s' \<and>
           texts s' = [Inr a, Inr b, Inr c, Inr str] \<and> synced s'"
proof -
  let ?p = "cmdpg_status (global s)"
  let ?g = "(global s)\<lparr>cmdpg_status := Some (length (heap s))\<rparr>"
  let ?s = "s\<lparr>heap := replaced ?p str (heap s), global := ?g\<rparr>"
  note d = slots_okD [OF ok] and ap = slots_ok_apart [OF ok]
  from tx have cs:
    "c_string s (bytenuts_status (global s)) = Inr a"
    "c_string s (ingest_status (global s)) = Inr b"
    "c_string s (cheerios_status (global s)) = Inr c"
    by (simp_all add: texts_def slots_def)
  have t: "texts ?s = [Inr a, Inr b, Inr c, Inr str]"
    using c_string_replaced_new [where s = s and p = "?p" and str = str and g = "?g"]
      c_string_replaced_old [OF cs(1) ap(10), where str = str and g = "?g"]
      c_string_replaced_old [OF cs(2) ap(11), where str = str and g = "?g"]
      c_string_replaced_old [OF cs(3) ap(12), where str = str and g = "?g"]
    by (simp add: texts_def slots_def)
  have ok': "slots_ok ?s"
  proof (rule slots_okI)
    show "slots (global ?s) = [bytenuts_status (global s), ingest_status (global s), cheerios_status (global s), Some (length (heap s))]"
      by (simp add: slots_def)
    show "\<forall>a\<in>set_option (Some (length (heap s))). allocated ?s a"
      using allocated_replaced_new [where s = s and p = "?p" and str = str and g = "?g"] by simp
  qed (rule allocated_replaced_keep [OF d(1) ap(10)]
        allocated_replaced_keep [OF d(2) ap(11)]
        allocated_replaced_keep [OF d(3) ap(12)]
        ap(4)
        ap(7)
        fresh_apart(1) [OF d(1)]
        ap(8)
        fresh_apart(1) [OF d(2)]
        fresh_apart(1) [OF d(3)])+
  have run: "bytenuts_set_status ids user str s =
      (case redraw_status ?s of Inl f \<Rightarrow> Inl f | Inr s3 \<Rightarrow> Inr (0, s3))"
    using free_if_set_alloc [OF d(4), where str = str] dist
    by (auto simp add: bytenuts_set_status_def alloc_text_def user ids_distinct_def)
  show ?thesis unfolding run by (rule redraw_after_replace [OF t ok'])
qed

lemma known_owner:
  assumes ok: "slots_ok s" and dist: "ids_distinct ids"
    and tx: "texts s = [Inr a, Inr b, Inr c, Inr d]"
    and user: "user \<in> {STATUS_BYTENUTS ids, STATUS_INGEST ids, STATUS_CHEERIOS ids, STATUS_CMDPAGE ids}"
  shows "\<exists>s'. bytenuts_set_status ids user str s = Inr (0, s') \<and> slots_ok s' \<and>
           texts s' = [Inr (if user = STATUS_BYTENUTS ids then str else a),
                       Inr (if user = STATUS_INGEST ids then str else b),
                       Inr (if user = STATUS_CHEERIOS ids then str else c),
                       Inr (if user = STATUS_CMDPAGE ids then str else d)] \<and> synced s'"
proof -
  consider "user = STATUS_BYTENUTS ids" | "user = STATUS_INGEST ids"
    | "user = STATUS_CHEERIOS ids" | "user = STATUS_CMDPAGE ids"
    using user by blast
  then show ?thesis
  proof cases
    case 1
    with known_owner_0 [OF ok dist 1 tx, of str] dist show ?thesis
      by (auto simp: ids_distinct_def)
  next
    case 2
    with known_owner_1 [OF ok dist 2 tx, of str] dist show ?thesis
      by (auto simp: ids_distinct_def)
  next
    case 3
    with known_owner_2 [OF ok dist 3 tx, of str] dist show ?thesis
      by (auto simp: ids_distinct_def)
  next
    case 4
    with known_owner_3 [OF ok dist 4 tx, of str] dist show ?thesis
      by (auto simp: ids_distinct_def)
  qed
qed

lemma status_text_cong:
  assumes "texts s1 = texts s2"
  shows "status_text s1 = status_text s2"
  using assms by (auto simp: texts_def slots_def status_text_def split: sum.splits)

lemma unknown_owner_keeps:
  assumes ok: "slots_ok s"
    and user: "user \<notin> {STATUS_BYTENUTS ids, STATUS_INGEST ids, STATUS_CHEERIOS ids, STATUS_CMDPAGE ids}"
  shows "\<exists>s'. bytenuts_set_status ids user str s = Inr (0, s') \<and> slots_ok s' \<and>
           texts s' = texts s \<and> calls s' = calls s \<and> (synced s \<longrightarrow> synced s')"
proof -
  let ?s = "s\<lparr>heap := heap s @ [None]\<rparr>"
  have r: "bytenuts_set_status ids user str s = Inr (0, ?s)"
    using user by (intro unknown_owner_result) auto
  have al: "allocated s a \<Longrightarrow> allocated ?s a" for a
    by (auto simp: allocated_def nth_append)
  have cs: "\<forall>a\<in>set_option p. allocated s a \<Longrightarrow> c_string ?s p = c_string s p" for p
    by (cases p) (auto simp: c_string_def allocated_def nth_append)
  note d = slots_okD [OF ok]
  have ok': "slots_ok ?s"
    using ok al by (auto simp: slots_ok_def)
  have tx: "texts ?s = texts s"
    using d by (simp add: texts_def slots_def cs)
  have st: "status_text ?s = status_text s"
    by (rule status_text_cong [OF tx])
  have "synced s \<longrightarrow> synced ?s"
    by (simp add: synced_def st split: sum.splits)
  with r ok' tx show ?thesis by simp
qed


subsection \<open>The pieces of one call\<close>

lemma status_text_format_args: "status_text s = format_args s (status_args (global s))"
  by (simp add: status_text_def format_args_def status_args_def)

lemma redraw_status_steps:
  "redraw_status s = redraw_print (in_yx s) (status_args (global s)) (redraw_clear s)"
proof -
  have "format_args (redraw_clear s) args = format_args s args" for args
    by (simp add: format_args_def redraw_clear_def split: prod.splits sum.splits)
  then show ?thesis
    by (simp add: redraw_status_def redraw_print_def status_text_format_args)
      (simp add: redraw_clear_def split: sum.splits)
qed

lemma set_status_steps:
  "bytenuts_set_status ids user str s =
     (case alloc_text str s of (new_status, s1) \<Rightarrow>
        (case status_switch ids user new_status s1 of
           Inl f \<Rightarrow> Inl f
         | Inr (known, s2) \<Rightarrow>
             if known then (case redraw_status s2 of Inl f \<Rightarrow> Inl f | Inr s3 \<Rightarrow> Inr (0, s3))
             else Inr (0, s2)))"
  by (simp add: bytenuts_set_status_def status_switch_def split: prod.splits sum.splits)

lemma status_exec_Cons:
  "status_exec ids (ta # sched) st =
     (case status_step ids st ta of Inl f \<Rightarrow> Inl f | Inr st' \<Rightarrow> status_exec ids sched st')"
proof -
  have "foldl (\<lambda>r ta. case r of Inl f \<Rightarrow> Inl f | Inr s \<Rightarrow> status_step ids s ta) (Inl f) sched = Inl f"
    for f
    by (induction sched) simp_all
  then show ?thesis
    by (simp add: status_exec_def split: sum.splits)
qed

lemma status_exec_Nil: "status_exec ids [] st = Inr st"
  by (simp add: status_exec_def)

lemma call_alone_refines:
  assumes "lock_owner st = None" and "term_owner st = None" and "place st t = Outside"
  shows "status_exec ids (call_alone t user str) st =
     (case bytenuts_set_status ids user str (shared st) of
        Inl f \<Rightarrow> Inl f
      | Inr (r, s') \<Rightarrow> Inr (st\<lparr>shared := s'\<rparr>))"
  using assms
  by (cases st)
    (simp add: call_alone_def eval_nat_numeral status_exec_Cons status_exec_Nil status_step_def
      set_status_steps redraw_status_steps redraw_clear_def fun_upd_idem
      split: prod.splits sum.splits)

section \<open>Properties of the status line\<close>

lemma example_system_eq:
  "example_system =
     \<lparr>global = example_loaded\<lparr>ingest_status := Some 0, cheerios_status := Some 1\<rparr>,
      heap = [Some [], Some []], calls = [], in_yx = (0, 0), status_maxx = 80\<rparr>"
  by (simp add: example_system_def init_statuses_def alloc_text_def)

text \<open>
  Claim C6. The final status line does not reflect the last update of each owner for
  every interleaving: the run of two updates below ends in a read of freed memory.
  The \<open>switch\<close> replaces and frees the status strings under \<open>lock\<close>, but \<open>wprintw\<close> reads
  them under \<open>term_lock\<close> only. Thread 1 stores \<open>rx\<close> for \<open>STATUS_INGEST\<close>, takes \<open>term_lock\<close>
  and calls \<open>wprintw\<close> with the four pointers, the third one to block 1, the string of
  \<open>STATUS_CHEERIOS\<close>. Thread 2 takes \<open>lock\<close>, which is free, frees block 1 and stores \<open>tx\<close>
  in a new block; it waits for \<open>term_lock\<close>. When \<open>wprintw\<close> of thread 1 formats its third
  argument, block 1 is freed. The same two calls made one after the other print the
  line of the claim, with \<open>rx\<close> and \<open>tx\<close>.
\<close>

theorem redraw_reads_freed_status:
  "status_exec example_ids racing_updates (threads_init example_system) = Inl Use_after_free \<and>
   map_sum id
     (\<lambda>st. (heap (shared st), status_args (global (shared st)), lock_owner st, term_owner st,
            place st 1, place st 2))
     (status_exec example_ids (butlast racing_updates) (threads_init example_system)) =
     Inr ([None, None, Some ''rx'', Some ''tx''], (None, Some 2, Some 3, None), None, Some 1,
          In_wprintw (0, 0) (None, Some 2, Some 1, None), At_term_lock) \<and>
   map_sum id (\<lambda>st. last_status_print (calls (shared st)))
     (status_exec example_ids (call_alone 1 1 ''rx'' @ call_alone 2 2 ''tx'')
        (threads_init example_system)) =
     Inr (Some ''|--(null)--|--rx--|--tx--|--(null)--|'')"
proof -
  note defs = status_exec_def racing_updates_def threads_init_def example_system_eq
      status_step_def alloc_text_def status_switch_def example_ids_def free_if_set_def
      free_block_def allocated_def example_loaded_def bytenuts_zero_def redraw_clear_def
      status_args_def redraw_print_def format_args_def c_string_def
  have "status_exec example_ids racing_updates (threads_init example_system) = Inl Use_after_free"
    by (simp add: defs)
  moreover have "map_sum id
     (\<lambda>st. (heap (shared st), status_args (global (shared st)), lock_owner st, term_owner st,
            place st 1, place st 2))
     (status_exec example_ids (butlast racing_updates) (threads_init example_system)) =
     Inr ([None, None, Some ''rx'', Some ''tx''], (None, Some 2, Some 3, None), None, Some 1,
          In_wprintw (0, 0) (None, Some 2, Some 1, None), At_term_lock)"
    by (simp add: defs)
  moreover have "map_sum id (\<lambda>st. last_status_print (calls (shared st)))
     (status_exec example_ids (call_alone 1 1 ''rx'' @ call_alone 2 2 ''tx'')
        (threads_init example_system)) =
     Inr (Some ''|--(null)--|--rx--|--tx--|--(null)--|'')"
    by (simp add: defs call_alone_def eval_nat_numeral status_format_def last_status_print_def)
  ultimately show ?thesis by blast
qed

text \<open>
  Claim C9. For an identifier that is none of the four owners, \<open>bytenuts_set_status\<close>
  returns 0 and leaves the state as it was but for one more block in the heap, the
  one of the formatted text, which is freed: the four status pointers and the blocks
  they point to are unchanged, and no call is made on the terminal.
\<close>

theorem unknown_owner_is_ignored:
  assumes "user \<notin> {STATUS_BYTENUTS ids, STATUS_INGEST ids, STATUS_CHEERIOS ids, STATUS_CMDPAGE ids}"
  shows "bytenuts_set_status ids user str s = Inr (0, s\<lparr>heap := heap s @ [None]\<rparr>) \<and>
     fst (alloc_text str s) = length (heap s) \<and>
     \<not> allocated (s\<lparr>heap := heap s @ [None]\<rparr>) (length (heap s)) \<and>
     slots (global (s\<lparr>heap := heap s @ [None]\<rparr>)) = slots (global s) \<and>
     (\<forall>p\<in>set (slots (global s)). \<forall>a\<in>set_option p.
        allocated s a \<longrightarrow> c_string (s\<lparr>heap := heap s @ [None]\<rparr>) p = c_string s p) \<and>
     calls (s\<lparr>heap := heap s @ [None]\<rparr>) = calls s"
proof -
  have "bytenuts_set_status ids user str s = Inr (0, s\<lparr>heap := heap s @ [None]\<rparr>)"
    using assms by (intro unknown_owner_result) auto
  moreover have "c_string (s\<lparr>heap := heap s @ [None]\<rparr>) p = c_string s p"
    if "p = Some a" "allocated s a" for p a
    using that by (simp add: c_string_def allocated_def nth_append)
  ultimately show ?thesis
    by (auto simp: alloc_text_def allocated_def)
qed

theorem unknown_owner_is_ignored_witness:
  "7 \<notin> {STATUS_BYTENUTS example_ids, STATUS_INGEST example_ids, STATUS_CHEERIOS example_ids,
         STATUS_CMDPAGE example_ids} \<and>
   bytenuts_set_status example_ids 7 ''zz'' example_system =
     Inr (0, example_system\<lparr>heap := [Some [], Some [], None]\<rparr>) \<and>
   ingest_status (global example_system) = Some 0 \<and> allocated example_system 0 \<and>
   c_string (example_system\<lparr>heap := [Some [], Some [], None]\<rparr>) (Some 0) = Inr []"
proof -
  have n: "7 \<notin> {STATUS_BYTENUTS example_ids, STATUS_INGEST example_ids,
         STATUS_CHEERIOS example_ids, STATUS_CMDPAGE example_ids}"
    by (simp add: example_ids_def)
  have h: "heap example_system @ [None] = [Some [], Some [], None]"
    by (simp add: example_system_eq)
  have i: "ingest_status (global example_system) = Some 0" "allocated example_system 0"
    by (simp_all add: example_system_eq allocated_def)
  have c: "c_string example_system (Some 0) = Inr []"
    by (simp add: example_system_eq c_string_def)
  from unknown_owner_is_ignored [OF n, of "''zz''" example_system] i c
  have "bytenuts_set_status example_ids 7 ''zz'' example_system =
          Inr (0, example_system\<lparr>heap := heap example_system @ [None]\<rparr>)"
    and "c_string (example_system\<lparr>heap := heap example_system @ [None]\<rparr>) (Some 0) = Inr []"
    by (simp_all add: slots_def)
  with n i show ?thesis by (simp add: h)
qed

section \<open>Traces of stop requests\<close>

lemma run_append: "run (xs @ ys) p = run ys (run xs p)"
  by (simp add: run_def)

lemma run_Cons: "run (e # es) p = run es (step p e)"
  by (simp add: run_def)

lemma run_Nil: "run [] p = p"
  by (simp add: run_def)

lemma step_inv:
  assumes "sys p = s\<lparr>calls := calls s @ (if main p = Returned then kill_calls (serial_fd (global s)) else [])\<rparr>"
  shows "sys (step p e) = s\<lparr>calls := calls s @ (if main (step p e) = Returned then kill_calls (serial_fd (global s)) else [])\<rparr>"
  using assms
  by (cases e; cases "main p")
     (simp_all add: bytenuts_stop_def main_runs_def bytenuts_kill_def kill_calls_def)

lemma run_inv:
  assumes "sys p = s\<lparr>calls := calls s @ (if main p = Returned then kill_calls (serial_fd (global s)) else [])\<rparr>"
  shows "sys (run evs p) = s\<lparr>calls := calls s @ (if main (run evs p) = Returned then kill_calls (serial_fd (global s)) else [])\<rparr>"
  using assms
proof (induction evs arbitrary: p)
  case Nil
  then show ?case by (simp add: run_Nil)
next
  case (Cons e evs)
  from Cons.IH [OF step_inv [OF Cons.prems]] show ?case by (simp add: run_Cons)
qed

lemma run_started:
  "sys (run evs (started s)) =
     s\<lparr>calls := calls s @ (if main (run evs (started s)) = Returned then kill_calls (serial_fd (global s)) else [])\<rparr>"
  by (rule run_inv) (simp add: started_def)

lemma run_not_starting: "main p \<noteq> Starting \<Longrightarrow> main (run evs p) \<noteq> Starting"
proof (induction evs arbitrary: p)
  case Nil then show ?case by (simp add: run_Nil)
next
  case (Cons e evs)
  have "main (step p e) \<noteq> Starting"
    using Cons.prems by (cases e; cases "main p") (simp_all add: bytenuts_stop_def main_runs_def)
  from Cons.IH [OF this] show ?case by (simp add: run_Cons)
qed

lemma run_signalled: "main p \<in> {Woken, Returned} \<Longrightarrow> main (run evs p) \<in> {Woken, Returned}"
proof (induction evs arbitrary: p)
  case Nil then show ?case by (simp add: run_Nil)
next
  case (Cons e evs)
  have "main (step p e) \<in> {Woken, Returned}"
    using Cons.prems by (cases e; cases "main p") (simp_all add: bytenuts_stop_def main_runs_def)
  from Cons.IH [OF this] show ?case by (simp add: run_Cons)
qed

lemma stop_before_wait_lost:
  "Main_runs \<notin> set evs \<Longrightarrow> main p = Starting \<Longrightarrow> run evs p = p"
proof (induction evs)
  case Nil then show ?case by (simp add: run_Nil)
next
  case (Cons e evs)
  then have "e = Stop_request" by (cases e) auto
  with Cons show ?case by (simp add: run_Cons bytenuts_stop_def)
qed

lemma stop_after_wait:
  "main (run (t1 @ Main_runs # t2 @ Stop_request # t3 @ [Main_runs]) p) = Returned"
proof -
  let ?p1 = "run (t1 @ [Main_runs]) p"
  have "main ?p1 \<noteq> Starting"
    by (cases "main (run t1 p)") (simp_all add: run_append run_Cons run_Nil main_runs_def)
  then have "main (run t2 ?p1) \<noteq> Starting" by (rule run_not_starting)
  then have "main (step (run t2 ?p1) Stop_request) \<in> {Woken, Returned}"
    by (cases "main (run t2 ?p1)") (simp_all add: bytenuts_stop_def main_runs_def)
  then have "main (run t3 (step (run t2 ?p1) Stop_request)) \<in> {Woken, Returned}"
    by (rule run_signalled)
  then have "main (step (run t3 (step (run t2 ?p1) Stop_request)) Main_runs) = Returned"
    by (auto simp add: main_runs_def)
  then show ?thesis by (simp add: run_append run_Cons run_Nil)
qed


lemma kill_calls_order: "engines_stopped_first (kill_calls fd)"
  by (auto simp: engines_stopped_first_def kill_calls_def nth_Cons split: nat.splits)

lemma kill_calls_close: "filter is_close (kill_calls fd) = [Close fd]"
  by (simp add: kill_calls_def)

lemma kill_calls_shutdowns: "shutdowns (cs @ kill_calls fd) = Suc (shutdowns cs)"
  by (simp add: shutdowns_def kill_calls_def)

lemma new_calls_run:
  "drop (length (calls s)) (calls (sys (run evs (started s)))) =
     (if main (run evs (started s)) = Returned then kill_calls (serial_fd (global s)) else [])"
  by (subst run_started) simp

section \<open>Properties of shutdown\<close>

text \<open>
  Claim C1, as stated, fails: the claim lets the stop requests come before the
  main context waits. After one stop request made before the main context reaches
  \<open>pthread_cond_wait\<close>, the main context blocks in the wait and stays blocked however
  often it is scheduled: no shutdown sequence is run.
\<close>

theorem stop_before_wait_counterexample:
  "main (run [Stop_request, Main_runs, Main_runs] (started example_system)) = Waiting \<and>
   shutdowns (calls (sys (run [Stop_request, Main_runs, Main_runs] (started example_system)))) = 0"
  by (simp add: run_def started_def bytenuts_stop_def main_runs_def shutdowns_def example_system_eq)


text \<open>
  Claim C1, amended. The stop signal is idempotent but not level-triggered. In
  every interleaving of stop requests with the main context, the number of shutdown
  sequences run is one when the main context has returned and zero otherwise, so
  never more than one; with any number of stop requests of which at least one comes
  after the main context has begun to wait, the main context, once it runs again,
  runs exactly one shutdown sequence; and stop requests made before the main context
  waits leave the process as it was.
\<close>

theorem stop_signal_idempotent_not_latched:
  "shutdowns (calls (sys (run evs (started s)))) =
     shutdowns (calls s) + (if main (run evs (started s)) = Returned then 1 else 0) \<and>
   shutdowns (calls (sys (run (t1 @ Main_runs # t2 @ Stop_request # t3 @ [Main_runs]) (started s)))) =
     shutdowns (calls s) + 1 \<and>
   (Main_runs \<notin> set pre \<longrightarrow> run pre (started s) = started s)"
proof -
  have a: "shutdowns (calls (sys (run evs (started s)))) =
     shutdowns (calls s) + (if main (run evs (started s)) = Returned then 1 else 0)" for evs
    by (subst run_started) (simp add: kill_calls_shutdowns)
  have b: "shutdowns (calls (sys (run (t1 @ Main_runs # t2 @ Stop_request # t3 @ [Main_runs]) (started s)))) =
     shutdowns (calls s) + 1"
    unfolding a by (simp add: stop_after_wait)
  have c: "Main_runs \<notin> set pre \<longrightarrow> run pre (started s) = started s"
    by (simp add: stop_before_wait_lost started_def)
  from a b c show ?thesis by blast
qed

theorem stop_signal_idempotent_not_latched_witness:
  "Main_runs \<notin> set [Stop_request, Stop_request] \<and>
   run [Stop_request, Stop_request] (started example_system) = started example_system \<and>
   shutdowns (calls (sys (run ([Stop_request] @ Main_runs # [] @ Stop_request #
      [Stop_request, Main_runs, Stop_request] @ [Main_runs]) (started example_system)))) = 1"
  using stop_signal_idempotent_not_latched [of "[]" example_system "[Stop_request]" "[]"
      "[Stop_request, Main_runs, Stop_request]" "[Stop_request, Stop_request]"]
  by (simp add: shutdowns_def example_system_eq)


text \<open>
  Claim C7. In \<open>bytenuts_kill\<close>, and so in every interleaving of stop requests with the
  main context, each call that destroys a window or closes the serial descriptor
  comes after the calls of \<open>ingest_stop\<close> and \<open>cheerios_stop\<close> have returned, and the
  serial descriptor is closed exactly once when the main context has returned, and
  not at all before.
\<close>

theorem shutdown_order:
  "engines_stopped_first (drop (length (calls s)) (calls (bytenuts_kill s))) \<and>
   filter is_close (drop (length (calls s)) (calls (bytenuts_kill s))) =
     [Close (serial_fd (global s))] \<and>
   engines_stopped_first (drop (length (calls s)) (calls (sys (run evs (started s))))) \<and>
   filter is_close (drop (length (calls s)) (calls (sys (run evs (started s))))) =
     (if main (run evs (started s)) = Returned then [Close (serial_fd (global s))] else [])"
proof -
  have k: "drop (length (calls s)) (calls (bytenuts_kill s)) = kill_calls (serial_fd (global s))"
    by (simp add: bytenuts_kill_def kill_calls_def)
  have e: "engines_stopped_first []"
    by (simp add: engines_stopped_first_def)
  show ?thesis
    unfolding k new_calls_run
    by (simp add: kill_calls_order kill_calls_close e)
qed

theorem shutdown_order_witness:
  "drop (length (calls example_system))
     (calls (sys (run [Main_runs, Stop_request, Main_runs] (started example_system)))) =
     [Ingest_stop, Cheerios_stop, Delwin Status_win, Delwin In_win, Delwin Out_win, Endwin, Close 0] \<and>
   engines_stopped_first
     [Ingest_stop, Cheerios_stop, Delwin Status_win, Delwin In_win, Delwin Out_win, Endwin, Close 0]"
proof -
  have r: "drop (length (calls example_system))
     (calls (sys (run [Main_runs, Stop_request, Main_runs] (started example_system)))) =
     [Ingest_stop, Cheerios_stop, Delwin Status_win, Delwin In_win, Delwin Out_win, Endwin, Close 0]"
    by (simp add: run_def started_def bytenuts_stop_def main_runs_def bytenuts_kill_def
        example_system_eq example_loaded_def bytenuts_zero_def)
  have "engines_stopped_first (drop (length (calls example_system))
     (calls (sys (run [Main_runs, Stop_request, Main_runs] (started example_system)))))"
    using shutdown_order [of example_system "[Main_runs, Stop_request, Main_runs]"] by blast
  then have "engines_stopped_first
     [Ingest_stop, Cheerios_stop, Delwin Status_win, Delwin In_win, Delwin Out_win, Endwin, Close 0]"
    by (simp only: r)
  with r show ?thesis by (rule conjI)
qed
section \<open>Ownership of the two mutexes\<close>

lemma locks_inv_init: "locks_inv locks_init"
  by (simp add: locks_inv_def locks_init_def on_screen_def storing_def)

lemma unlock_term_lock:
  assumes inv: "locks_inv s" and t: "on_screen s t"
  shows "locks_inv (s\<lparr>term_lock := None, pc := (pc s)(t := Idle)\<rparr>)"
proof -
  from inv t have own: "term_lock s = Some t"
    by (simp add: locks_inv_def)
  with inv have only: "on_screen s u \<longleftrightarrow> u = t" for u
    by (auto simp: locks_inv_def)
  from inv have sto: "lock s = Some u \<longleftrightarrow> storing s u" for u
    by (simp add: locks_inv_def)
  from t have mine: "\<not> storing s t"
    by (auto simp: on_screen_def storing_def)
  show ?thesis
    unfolding locks_inv_def
  proof (intro allI conjI)
    fix u
    show "term_lock (s\<lparr>term_lock := None, pc := (pc s)(t := Idle)\<rparr>) = Some u \<longleftrightarrow>
          on_screen (s\<lparr>term_lock := None, pc := (pc s)(t := Idle)\<rparr>) u"
      using only [of u] by (cases "u = t") (simp_all add: on_screen_def)
    show "lock (s\<lparr>term_lock := None, pc := (pc s)(t := Idle)\<rparr>) = Some u \<longleftrightarrow>
          storing (s\<lparr>term_lock := None, pc := (pc s)(t := Idle)\<rparr>) u"
      using sto [of u] mine by (cases "u = t") (simp_all add: storing_def)
  qed
qed

lemma unlock_lock:
  assumes inv: "locks_inv s" and t: "storing s t" and q: "q = Idle \<or> q = Status_term_lock"
  shows "locks_inv (s\<lparr>lock := None, pc := (pc s)(t := q)\<rparr>)"
proof -
  from inv t have own: "lock s = Some t"
    by (simp add: locks_inv_def)
  with inv have only: "storing s u \<longleftrightarrow> u = t" for u
    by (auto simp: locks_inv_def)
  from inv have scr: "term_lock s = Some u \<longleftrightarrow> on_screen s u" for u
    by (simp add: locks_inv_def)
  from t have mine: "\<not> on_screen s t"
    by (auto simp: on_screen_def storing_def)
  show ?thesis
    unfolding locks_inv_def
  proof (intro allI conjI)
    fix u
    show "term_lock (s\<lparr>lock := None, pc := (pc s)(t := q)\<rparr>) = Some u \<longleftrightarrow>
          on_screen (s\<lparr>lock := None, pc := (pc s)(t := q)\<rparr>) u"
      using scr [of u] mine q by (cases "u = t") (auto simp: on_screen_def)
    show "lock (s\<lparr>lock := None, pc := (pc s)(t := q)\<rparr>) = Some u \<longleftrightarrow>
          storing (s\<lparr>lock := None, pc := (pc s)(t := q)\<rparr>) u"
      using only [of u] q by (cases "u = t") (auto simp: storing_def)
  qed
qed

lemma locks_inv_step: "locks_inv s \<Longrightarrow> locks_inv (thread_step s ta)"
proof -
  assume inv: "locks_inv s"
  obtain t a where ta: "ta = (t, a)" by (cases ta)
  show ?thesis
  proof (cases "pc s t")
    case Idle
    with inv show ?thesis
      by (cases a) (auto simp: ta thread_step_def locks_inv_def on_screen_def storing_def)
  next
    case (Status_lock k)
    with inv show ?thesis
      by (auto simp: ta thread_step_def locks_inv_def on_screen_def storing_def)
  next
    case (Status_store k)
    then have "storing s t" by (cases k) (simp_all add: storing_def)
    from unlock_lock [OF inv this] Status_store show ?thesis
      by (simp add: ta thread_step_def)
  next
    case Status_term_lock
    with inv show ?thesis
      by (auto simp: ta thread_step_def locks_inv_def on_screen_def storing_def)
  next
    case Status_redraw
    then have "on_screen s t" by (simp add: on_screen_def)
    from unlock_term_lock [OF inv this] Status_redraw show ?thesis
      by (simp add: ta thread_step_def)
  next
    case Resize_term_lock
    with inv show ?thesis
      by (auto simp: ta thread_step_def locks_inv_def on_screen_def storing_def)
  next
    case Resize_windows
    then have "on_screen s t" by (simp add: on_screen_def)
    from unlock_term_lock [OF inv this] Resize_windows show ?thesis
      by (simp add: ta thread_step_def)
  qed
qed

lemma locks_inv_exec: "locks_inv s \<Longrightarrow> locks_inv (exec sched s)"
  unfolding exec_def
  by (induction sched arbitrary: s) (simp_all add: locks_inv_step)

section \<open>Properties of the locking\<close>

text \<open>
  Claim C2, as stated, fails: the status updates do not run under one lock. A thread
  that has stored its string and holds \<open>term_lock\<close> to draw the status line, reading
  the four strings, runs at the same time as a second thread that holds the other
  mutex, \<open>lock\<close>, in the \<open>switch\<close> that frees and replaces a status string.
\<close>

theorem store_overlaps_redraw_counterexample:
  "pc (exec [(0, Call_set_status True), (0, Proceed), (0, Proceed), (0, Proceed),
             (1, Call_set_status True), (1, Proceed)] locks_init) 0 = Status_redraw \<and>
   pc (exec [(0, Call_set_status True), (0, Proceed), (0, Proceed), (0, Proceed),
             (1, Call_set_status True), (1, Proceed)] locks_init) 1 = Status_store True \<and>
   term_lock (exec [(0, Call_set_status True), (0, Proceed), (0, Proceed), (0, Proceed),
             (1, Call_set_status True), (1, Proceed)] locks_init) = Some 0 \<and>
   lock (exec [(0, Call_set_status True), (0, Proceed), (0, Proceed), (0, Proceed),
             (1, Call_set_status True), (1, Proceed)] locks_init) = Some 1"
  by (simp add: exec_def thread_step_def locks_init_def)


text \<open>
  Claim C2, amended. There are two mutexes. In every interleaving of threads that
  call \<open>bytenuts_set_status\<close> and \<open>bytenuts_update_screen_size\<close>, a thread that draws the
  status line or resizes the windows holds \<open>term_lock\<close>, and no two threads do either
  at the same time; a thread in the \<open>switch\<close> that replaces a status string holds
  \<open>lock\<close>, and no two threads are there at the same time.
\<close>

theorem screen_and_store_exclusion:
  "(on_screen (exec sched locks_init) t \<longrightarrow> term_lock (exec sched locks_init) = Some t) \<and>
   (storing (exec sched locks_init) t \<longrightarrow> lock (exec sched locks_init) = Some t) \<and>
   (t \<noteq> u \<longrightarrow>
      \<not> (on_screen (exec sched locks_init) t \<and> on_screen (exec sched locks_init) u) \<and>
      \<not> (storing (exec sched locks_init) t \<and> storing (exec sched locks_init) u))"
  using locks_inv_exec [OF locks_inv_init, of sched]
  unfolding locks_inv_def by (metis option.inject)

theorem screen_and_store_exclusion_witness:
  "on_screen (exec [(0, Call_update_screen_size), (0, Proceed), (1, Call_set_status False),
       (1, Proceed), (2, Call_set_status True), (2, Proceed)] locks_init) 0 \<and>
   term_lock (exec [(0, Call_update_screen_size), (0, Proceed), (1, Call_set_status False),
       (1, Proceed), (2, Call_set_status True), (2, Proceed)] locks_init) = Some 0 \<and>
   storing (exec [(0, Call_update_screen_size), (0, Proceed), (1, Call_set_status False),
       (1, Proceed), (2, Call_set_status True), (2, Proceed)] locks_init) 1 \<and>
   lock (exec [(0, Call_update_screen_size), (0, Proceed), (1, Call_set_status False),
       (1, Proceed), (2, Call_set_status True), (2, Proceed)] locks_init) = Some 1 \<and>
   \<not> on_screen (exec [(0, Call_update_screen_size), (0, Proceed), (1, Call_set_status False),
       (1, Proceed), (2, Call_set_status True), (2, Proceed)] locks_init) 1 \<and>
   \<not> storing (exec [(0, Call_update_screen_size), (0, Proceed), (1, Call_set_status False),
       (1, Proceed), (2, Call_set_status True), (2, Proceed)] locks_init) 2"
proof -
  let ?s = "exec [(0, Call_update_screen_size), (0, Proceed), (1, Call_set_status False),
       (1, Proceed), (2, Call_set_status True), (2, Proceed)] locks_init"
  have a: "on_screen ?s 0"
    by (simp add: exec_def thread_step_def locks_init_def on_screen_def)
  have b: "storing ?s 1"
    by (simp add: exec_def thread_step_def locks_init_def storing_def)
  from screen_and_store_exclusion [of "[(0, Call_update_screen_size), (0, Proceed),
       (1, Call_set_status False), (1, Proceed), (2, Call_set_status True), (2, Proceed)]" 0 1] a
  have c: "term_lock ?s = Some 0" "\<not> on_screen ?s 1" by simp_all
  from screen_and_store_exclusion [of "[(0, Call_update_screen_size), (0, Proceed),
       (1, Call_set_status False), (1, Proceed), (2, Call_set_status True), (2, Proceed)]" 1 2] b
  have d: "lock ?s = Some 1" "\<not> storing ?s 2" by simp_all
  from a b c d show ?thesis by blast
qed

end
